theory Spec2Isabelle
  imports Main "HOL-Library.Word" "HOL-Library.AList" "HOL-Library.Sublist"
begin

unbundle bit_operations_syntax

section \<open>Machine integers and bytes\<close>

type_synonym byte = "8 word"
type_synonym uint32 = "32 word"

section \<open>ObjectID generation (package common)\<close>

text \<open>
  The package-level variables of the source:
  \<^verbatim>\<open>var ( objectIDProcess [5]byte; objectIDCounter uint32 )\<close>.
  Both are seeded once by \<^verbatim>\<open>init\<close> from the random source, so any value is a
  possible state. The array is kept as a list; \<^verbatim>\<open>copy\<close> below writes its first five
  bytes into the zeroed result, as Go's \<^verbatim>\<open>copy\<close> does.
\<close>

record objectIDState =
  objectIDProcess :: "byte list"
  objectIDCounter :: uint32

type_synonym ObjectID = "byte list"

text \<open>\<^verbatim>\<open>binary.BigEndian.PutUint32\<close>: the four bytes of a 32-bit value, high byte first.\<close>

definition PutUint32 :: "uint32 \<Rightarrow> byte list" where
  "PutUint32 v = [ucast (drop_bit 24 v), ucast (drop_bit 16 v), ucast (drop_bit 8 v), ucast v]"

text \<open>
  \<^verbatim>\<open>generateObjectID\<close>. The first argument is \<^verbatim>\<open>time.Now().Unix()\<close>; the
  conversion \<^verbatim>\<open>uint32(t.Unix())\<close> truncates. \<^verbatim>\<open>atomic.AddUint32(&objectIDCounter, 1)\<close>
  stores the incremented counter and returns the new value \<^verbatim>\<open>c\<close>;
  bytes 9..11 are \<^verbatim>\<open>byte(c >> 16)\<close>, \<^verbatim>\<open>byte(c >> 8)\<close>, \<^verbatim>\<open>byte(c)\<close>.
\<close>

definition generateObjectID :: "int \<Rightarrow> objectIDState \<Rightarrow> ObjectID \<times> objectIDState" where
  "generateObjectID unix s =
     (let c = objectIDCounter s + 1 in
      (PutUint32 (word_of_int unix)
         @ take 5 (objectIDProcess s @ replicate 5 0)
         @ [ucast (drop_bit 16 c), ucast (drop_bit 8 c), ucast c],
       s\<lparr>objectIDCounter := c\<rparr>))"

text \<open>The counter component of an ObjectID: bytes 9..11 read as a big-endian 24-bit number.\<close>

definition counter24 :: "ObjectID \<Rightarrow> nat" where
  "counter24 oid = unat (oid ! 9) * 65536 + unat (oid ! 10) * 256 + unat (oid ! 11)"

section \<open>Errors\<close>

text \<open>
  Errors are values. \<^verbatim>\<open>common.NewErrorMessage(code, msg)\<close> builds a command error that
  the reply reports with its MongoDB code; \<^verbatim>\<open>lazyerrors.Errorf\<close>, \<^verbatim>\<open>lazyerrors.New\<close>
  and the errors of library calls are plain errors with a message; \<^verbatim>\<open>lazyerrors.Errorf("ctx: %w", err)\<close>
  and \<^verbatim>\<open>lazyerrors.Error(err)\<close> wrap an error and keep it reachable. A Go panic
  (an explicit \<^verbatim>\<open>panic\<close>, a failed type assertion, a nil dereference) is a
  result of its own, never an error return.
\<close>

datatype ErrorCode = ErrBadValue | ErrRegexOptions | ErrNotImplemented

datatype error =
    Panic string
  | ErrorMessage ErrorCode string
  | Errorf string
  | Wrap string error

text \<open>
  The command error an error carries, as \<^verbatim>\<open>errors.As\<close> finds it through the wrappers;
  \<open>None\<close> for a plain error, which the router reports as an internal error.
\<close>

fun errorCode :: "error \<Rightarrow> ErrorCode option" where
  "errorCode (ErrorMessage c m) = Some c"
| "errorCode (Wrap ctx e) = errorCode e"
| "errorCode (Errorf m) = None"
| "errorCode (Panic m) = None"

fun isPanic :: "error \<Rightarrow> bool" where
  "isPanic (Panic m) = True"
| "isPanic e = False"

section \<open>Command registry (package handlers)\<close>

text \<open>
  The handler functions the registry points to, by their names in the source;
  the two anonymous functions of \<^verbatim>\<open>debug_error\<close> and \<^verbatim>\<open>debug_panic\<close> are
  \<open>DebugErrorFunc\<close> and \<open>DebugPanicFunc\<close>.
\<close>

datatype handlerFunc =
    MsgBuildInfo | MsgUsersInfo | MsgRolesInfo | MsgGetLastError | MsgConnectionStatus
  | MsgCreate | MsgDBStats | MsgDrop | MsgDropDatabase | MsgGetLog | MsgHostInfo | MsgHello
  | MsgListCollections | MsgListDatabases | MsgPing | MsgWhatsMyURI | MsgAuthenticate
  | DebugErrorFunc | DebugPanicFunc

datatype storageHandlerFunc =
    MsgDelete | MsgFindOrCount | MsgFindAndModify | MsgInsert | MsgUpdate

text \<open>The struct \<^verbatim>\<open>command\<close>; its field \<^verbatim>\<open>help\<close> is \<open>helpText\<close> here.\<close>

record command =
  name :: string
  helpText :: string
  handler :: "handlerFunc option"
  storageHandler :: "storageHandlerFunc option"

definition cmd :: "string \<Rightarrow> string \<Rightarrow> handlerFunc \<Rightarrow> command" where
  "cmd n h f = \<lparr>name = n, helpText = h, handler = Some f, storageHandler = None\<rparr>"

definition storageCmd :: "string \<Rightarrow> string \<Rightarrow> storageHandlerFunc \<Rightarrow> command" where
  "storageCmd n h f = \<lparr>name = n, helpText = h, handler = None, storageHandler = Some f\<rparr>"

text \<open>
  \<^verbatim>\<open>var commands = map[string]command{...}\<close>: the map literal, entry by entry in the
  order of the source (the entries commented out in the source are not part of the map).
  A lookup \<^verbatim>\<open>commands[k]\<close> is \<open>map_of commands k\<close>.
\<close>

definition commands :: "(string \<times> command) list" where
  "commands = [
    (''buildInfo'', cmd ''buildInfo'' ''Returns a summary of the build information.'' MsgBuildInfo),
    (''usersInfo'', cmd ''usersInfo''
       ''Returns user USERNAME. Is used as a workaround to allow use of some GUIs'' MsgUsersInfo),
    (''rolesInfo'', cmd ''rolesInfo''
       ''Return role readWrite. Is used as a workaround to allow use of some GUIs'' MsgRolesInfo),
    (''getlasterror'', cmd ''getlasterror''
       ''Does not return last error. Is used as a workaround to allow use of some GUIs.''
       MsgGetLastError),
    (''getLastError'', cmd ''getLastError''
       ''Does not return last error. Is used as a workaround to allow use of some GUIs.''
       MsgGetLastError),
    (''connectionStatus'', cmd ''connectionStatus'' ''checks connection'' MsgConnectionStatus),
    (''create'', cmd ''create'' ''Creates the collection.'' MsgCreate),
    (''dbStats'', cmd ''dbStats'' ''Returns the statistics of the database.'' MsgDBStats),
    (''drop'', cmd ''drop'' ''Drops the collection.'' MsgDrop),
    (''dropDatabase'', cmd ''dropDatabase'' ''Deletes the database.'' MsgDropDatabase),
    (''getLog'', cmd ''getLog'' ''Returns the most recent logged events from memory.'' MsgGetLog),
    (''hostInfo'', cmd ''hostInfo'' ''Returns a summary of the system information.'' MsgHostInfo),
    (''isMaster'', cmd ''isMaster''
       ''Returns the role of the SAP HANA compatibility layer for MongoDB Wire Protocol instance.''
       MsgHello),
    (''hello'', cmd ''hello''
       ''Returns the role of the SAP HANA compatibility layer for MongoDB Wire Protocol instance.''
       MsgHello),
    (''listCollections'', cmd ''listCollections''
       ''Returns the information of the collections and views in the database.''
       MsgListCollections),
    (''listDatabases'', cmd ''listDatabases'' ''Returns a summary of all the databases.''
       MsgListDatabases),
    (''listCommands'',
       \<lparr>name = ''listCommands'',
        helpText = ''Returns information about the currently supported commands.'',
        handler = None, storageHandler = None\<rparr>),
    (''ping'', cmd ''ping'' ''Returns a pong response. Used for testing purposes.'' MsgPing),
    (''whatsmyuri'', cmd ''whatsmyuri'' ''An internal command.'' MsgWhatsMyURI),
    (''authenticate'', cmd ''authenticate'' ''a method for authentication'' MsgAuthenticate),
    (''delete'', storageCmd ''delete'' ''Deletes documents matched by the query.'' MsgDelete),
    (''find'', storageCmd ''find'' ''Returns documents matched by the custom query.''
       MsgFindOrCount),
    (''findAndModify'', storageCmd ''findAndModify''
       ''find one document, modifies it and return either the old document or the new document.''
       MsgFindAndModify),
    (''count'', storageCmd ''count''
       ''Returns the count of documents that's matched by the query.'' MsgFindOrCount),
    (''insert'', storageCmd ''insert'' ''Inserts documents into the database.'' MsgInsert),
    (''update'', storageCmd ''update'' ''Updates documents that are matched by the query.''
       MsgUpdate),
    (''debug_error'', cmd ''debug_error'' ''Used for debugging purposes.'' DebugErrorFunc),
    (''debug_panic'', cmd ''debug_panic'' ''Used for debugging purposes.'' DebugPanicFunc)]"

text \<open>
  \<^verbatim>\<open>strings.ToLower\<close> on the bytes of an ASCII string: a byte in \<open>'A'..'Z'\<close>
  (65..90) gets bit 5 set, which adds 32; every other byte stays.
\<close>

fun toLowerByte :: "char \<Rightarrow> char" where
  "toLowerByte (Char b0 b1 b2 b3 b4 b5 b6 b7) =
     (let n = (of_char (Char b0 b1 b2 b3 b4 b5 b6 b7) :: nat) in
      if 65 \<le> n \<and> n \<le> 90 then Char b0 b1 b2 b3 b4 True b6 b7
      else Char b0 b1 b2 b3 b4 b5 b6 b7)"

definition ToLower :: "string \<Rightarrow> string" where
  "ToLower s = map toLowerByte s"

text \<open>
  What is checked of one entry \<open>(k, c)\<close> of the registry: the key is the command's name,
  the lookup of the key finds the entry, and the lookup of the lowercased key finds the
  entry only when the key has no capital letter. \<^verbatim>\<open>getLastError\<close> lowercased is
  \<^verbatim>\<open>getlasterror\<close>, the key of another entry of the registry, which has the name
  \<^verbatim>\<open>getlasterror\<close> and the handler of \<^verbatim>\<open>getLastError\<close>; the lowercase form of any
  other key with a capital letter is no key.
\<close>

definition entryOK :: "string \<times> command \<Rightarrow> bool" where
  "entryOK e = (case e of (k, c) \<Rightarrow>
     name c = k \<and> map_of commands k = Some c \<and>
     map_of commands (ToLower k) =
       (if ToLower k = k then Some c
        else if k = ''getLastError'' then
          Some (cmd ''getlasterror''
            ''Does not return last error. Is used as a workaround to allow use of some GUIs.''
            MsgGetLastError)
        else None) \<and>
     (k = ''getLastError'' \<longrightarrow>
        ToLower k = ''getlasterror'' \<and>
        (case map_of commands ''getlasterror'' of
           Some c' \<Rightarrow> name c' = ''getlasterror'' \<and> c' \<noteq> c \<and> handler c' = handler c
         | None \<Rightarrow> False)))"

section \<open>fjson String (package fjson)\<close>

text \<open>
  \<^verbatim>\<open>func (str *String) UnmarshalJSON(data []byte) error\<close>. The decoder
  \<^verbatim>\<open>json.Unmarshal(data, &o)\<close> into a Go string is the standard library's and is the
  parameter \<open>unmarshal\<close>: \<open>None\<close> when it returns an error, the decoded string otherwise.
  The result is the error, or the new value of \<^verbatim>\<open>*str\<close>.
\<close>

definition UnmarshalJSON :: "(string \<Rightarrow> string option) \<Rightarrow> string \<Rightarrow> error + string" where
  "UnmarshalJSON unmarshal data =
     (if data = ''null'' then Inl (Panic ''null data'')
      else case unmarshal data of
             None \<Rightarrow> Inl (Wrap ''lazyerrors.Error'' (Errorf ''json.Unmarshal''))
           | Some o' \<Rightarrow> Inr o')"

text \<open>
  An instance of the decoder for concrete inputs: a JSON string literal without escape
  sequences decodes to the text between its quotes; every other input is refused here.
\<close>

definition plainString :: "string \<Rightarrow> string option" where
  "plainString d =
     (if 2 \<le> length d \<and> hd d = CHR 0x22 \<and> last d = CHR 0x22
         \<and> list_all (\<lambda>c. c \<noteq> CHR 0x22 \<and> c \<noteq> CHR 0x5C) (butlast (tl d))
      then Some (butlast (tl d)) else None)"

section \<open>Values and documents (package types)\<close>

text \<open>
  Modelled from the spec: the package \<^verbatim>\<open>types\<close> is not in the sources. The spec's
  words: a fixed closed set of scalar types (double, string, document, array, bool,
  datetime, null, int32, int64, objectId, regex); a regex is a pair (pattern, options);
  a document is an ordered mapping from string key to typed value whose insertion order
  is preserved, with \<^verbatim>\<open>Keys()\<close>, \<^verbatim>\<open>Map()\<close>, \<^verbatim>\<open>Get(k)\<close>, \<^verbatim>\<open>Set(k,v)\<close>.

  A Go value of type \<^verbatim>\<open>any\<close> that the handlers meet is one of these, or the nil
  interface \<open>VNil\<close> (what a map lookup yields for a missing key). A \<^verbatim>\<open>float64\<close> is kept
  by its IEEE-754 bits. A document is the list of its (key, value) pairs in key order.
  The sources assert two dynamic types for an array, which Go keeps apart: the pointer
  \<^verbatim>\<open>*types.Array\<close> in \<^verbatim>\<open>where.go\<close> (\<open>VArrayPtr\<close>) and the value
  \<^verbatim>\<open>types.Array\<close> in \<^verbatim>\<open>filterUpsert\<close> (\<open>VArray\<close>).
\<close>

datatype any =
    VNil
  | VFloat64 "64 word"
  | VString string
  | VDocument "(string \<times> any) list"
  | VArray "any list"
  | VArrayPtr "any list"
  | VBool bool
  | VTime int
  | VNull
  | VInt32 "32 word"
  | VInt64 "64 word"
  | VObjectID ObjectID
  | VRegex string string

type_synonym Document = "(string \<times> any) list"

definition Keys :: "Document \<Rightarrow> string list" where
  "Keys d = map fst d"

text \<open>\<^verbatim>\<open>d.Get(k)\<close>: the value, or \<open>None\<close> where the source gets an error.\<close>

definition Get :: "Document \<Rightarrow> string \<Rightarrow> any option" where
  "Get d k = map_of d k"

text \<open>\<^verbatim>\<open>m[k]\<close> on \<^verbatim>\<open>m := d.Map()\<close>: the zero value nil for a missing key.\<close>

definition MapIndex :: "Document \<Rightarrow> string \<Rightarrow> any" where
  "MapIndex d k = (case map_of d k of None \<Rightarrow> VNil | Some v \<Rightarrow> v)"

text \<open>
  Modelled from the spec: \<^verbatim>\<open>types.CompareScalars\<close> is not in the sources. The sources
  use only whether \<^verbatim>\<open>CompareScalars(v, int32(0))\<close> is \<^verbatim>\<open>Equal\<close> for a number \<open>v\<close>;
  the spec's words are "values true/1/1.0/non-zero = include; false/0/0.0 = exclude".
  The two IEEE-754 zeros are \<open>+0.0\<close> (no bit set) and \<open>-0.0\<close> (the sign bit alone).
\<close>

definition equalsZero :: "any \<Rightarrow> bool" where
  "equalsZero v =
     (case v of
        VInt32 i \<Rightarrow> i = 0
      | VInt64 i \<Rightarrow> i = 0
      | VFloat64 f \<Rightarrow> f = 0 \<or> f = 0x8000000000000000
      | _ \<Rightarrow> False)"

text \<open>\<^verbatim>\<open>strings.Contains(k, ".")\<close> and \<^verbatim>\<open>strings.HasPrefix(key, "$")\<close>.\<close>

definition containsDot :: "string \<Rightarrow> bool" where
  "containsDot k = (CHR ''.'' \<in> set k)"

definition hasDollarPrefix :: "string \<Rightarrow> bool" where
  "hasDollarPrefix key = prefix ''$'' key"

section \<open>Projection (package common)\<close>

text \<open>
  The type switch \<^verbatim>\<open>switch v := v.(type) { case bool: ... case int32, int64, float64: ...
  default: ... }\<close> of \<^verbatim>\<open>isProjectionInclusion\<close>.
\<close>

datatype projectionCase = CaseBool bool | CaseNumber | CaseDefault

definition projectionSwitch :: "any \<Rightarrow> projectionCase" where
  "projectionSwitch v =
     (case v of
        VBool b \<Rightarrow> CaseBool b
      | VInt32 i \<Rightarrow> CaseNumber
      | VInt64 i \<Rightarrow> CaseNumber
      | VFloat64 f \<Rightarrow> CaseNumber
      | _ \<Rightarrow> CaseDefault)"

text \<open>
  \<^verbatim>\<open>isProjectionInclusion\<close>: the loop over \<^verbatim>\<open>projection.Keys()\<close> with the two
  flags \<^verbatim>\<open>inclusion\<close> and \<^verbatim>\<open>exclusion\<close> as loop state. Every error of the
  function is built by \<^verbatim>\<open>lazyerrors.Errorf\<close>.
\<close>

fun isProjectionInclusion_loop :: "Document \<Rightarrow> string list \<Rightarrow> bool \<Rightarrow> bool \<Rightarrow> error + bool" where
  "isProjectionInclusion_loop projection [] inclusion exclusion = Inr inclusion"
| "isProjectionInclusion_loop projection (k # ks) inclusion exclusion =
     (if k = ''_id'' then isProjectionInclusion_loop projection ks inclusion exclusion
      else case Get projection k of
        None \<Rightarrow> Inl (Errorf ''no value for %s.'')
      | Some v \<Rightarrow>
         (case projectionSwitch v of
            CaseBool b \<Rightarrow>
              if b then
                if exclusion then
                  Inl (Errorf ''Cannot do inclusion on field #{k} in exclusion projection'')
                else if containsDot k then
                  Inl (Errorf ''Projection on nested documents is not implemented, yet.'')
                else isProjectionInclusion_loop projection ks True exclusion
              else
                if inclusion then
                  Inl (Errorf ''Cannot do exclusion on field #{k} in inclusion projection'')
                else isProjectionInclusion_loop projection ks inclusion True
          | CaseNumber \<Rightarrow>
              if equalsZero v then
                if inclusion then
                  Inl (Errorf ''Cannot do exclusion on field #{k} in inclusion projection'')
                else isProjectionInclusion_loop projection ks inclusion True
              else
                if exclusion then
                  Inl (Errorf ''Cannot do inclusion on field #{k} in exclusion projection'')
                else if containsDot k then
                  Inl (Errorf ''Projection on nested documents is not implemented, yet.'')
                else isProjectionInclusion_loop projection ks True exclusion
          | CaseDefault \<Rightarrow> Inl (Errorf ''unsupported operation %s %v (%T)'')))"

definition isProjectionInclusion :: "Document \<Rightarrow> error + bool" where
  "isProjectionInclusion projection =
     isProjectionInclusion_loop projection (Keys projection) False False"

text \<open>
  \<^verbatim>\<open>inclusionProjection\<close>: the JSON-object projection text. The loop index \<open>i\<close> counts
  all keys, \<^verbatim>\<open>_id\<close> included.
\<close>

fun inclusionProjection_loop :: "string list \<Rightarrow> nat \<Rightarrow> string \<Rightarrow> string" where
  "inclusionProjection_loop [] i sql = sql"
| "inclusionProjection_loop (k # ks) i sql =
     (if k = ''_id'' then inclusionProjection_loop ks (i + 1) sql
      else inclusionProjection_loop ks (i + 1)
             ((if i \<noteq> 0 then sql @ '', '' else sql)
                @ [CHR 0x22] @ k @ [CHR 0x22] @ '': '' @ [CHR 0x22] @ k @ [CHR 0x22]))"

definition idColumn :: string where
  "idColumn = [CHR 0x22] @ ''_id'' @ [CHR 0x22] @ '': '' @ [CHR 0x22] @ ''_id'' @ [CHR 0x22] @ '', ''"

definition inclusionProjection :: "Document \<Rightarrow> string" where
  "inclusionProjection projection =
     (let sql = ''{'';
          sql = (case Get projection ''_id'' of
                   Some idv \<Rightarrow>
                     (case projectionSwitch idv of
                        CaseBool b \<Rightarrow> if b then sql @ idColumn else sql
                      | CaseNumber \<Rightarrow> if \<not> equalsZero idv then sql @ idColumn else sql
                      | CaseDefault \<Rightarrow> sql)
                 | None \<Rightarrow> sql @ idColumn);
          sql = inclusionProjection_loop (Keys projection) 0 sql
      in sql @ ''}'')"

text \<open>
  \<^verbatim>\<open>Projection\<close>. \<^verbatim>\<open>common.Unimplemented\<close> is not in the sources and is the
  parameter \<open>unimplemented\<close>: the error it returns for the document and the listed
  fields, or \<open>None\<close>. The result is the error, or the pair \<^verbatim>\<open>(sql, exclusion)\<close>.
\<close>

definition unimplementedFields :: "string list" where
  "unimplementedFields = [''$'', ''$elemMatch'', ''$meta'', ''$slice'', ''$comment'', ''$rand'']"

definition Projection ::
  "(Document \<Rightarrow> string list \<Rightarrow> error option) \<Rightarrow> Document \<Rightarrow> error + (string \<times> bool)" where
  "Projection unimplemented projection =
     (case unimplemented projection unimplementedFields of
        Some err \<Rightarrow> Inl err
      | None \<Rightarrow>
          if length (Keys projection) = 0 then Inr (''*'', False)
          else
            (case isProjectionInclusion projection of
               Inl err \<Rightarrow> Inl err
             | Inr inclusion \<Rightarrow>
                 if inclusion then Inr (inclusionProjection projection, False)
                 else Inr (''*'', True)))"

text \<open>
  The two modes of a projection value. An inclusion value is \<^verbatim>\<open>true\<close> or a number that
  is not zero; an exclusion value is \<^verbatim>\<open>false\<close> or a number that is zero.
  \<open>hasInclusion\<close> and \<open>hasExclusion\<close> say that one of the listed keys other than
  \<^verbatim>\<open>_id\<close> carries such a value in the projection.
\<close>

definition isInclusionValue :: "any \<Rightarrow> bool" where
  "isInclusionValue v = (v = VBool True \<or> (projectionSwitch v = CaseNumber \<and> \<not> equalsZero v))"

definition isExclusionValue :: "any \<Rightarrow> bool" where
  "isExclusionValue v = (v = VBool False \<or> (projectionSwitch v = CaseNumber \<and> equalsZero v))"

definition hasInclusion :: "Document \<Rightarrow> string list \<Rightarrow> bool" where
  "hasInclusion p ks = list_ex (\<lambda>k. k \<noteq> ''_id'' \<and> (case Get p k of None \<Rightarrow> False | Some v \<Rightarrow> isInclusionValue v)) ks"

definition hasExclusion :: "Document \<Rightarrow> string list \<Rightarrow> bool" where
  "hasExclusion p ks = list_ex (\<lambda>k. k \<noteq> ''_id'' \<and> (case Get p k of None \<Rightarrow> False | Some v \<Rightarrow> isExclusionValue v)) ks"

section \<open>Filter compiler (package jsonb1, file where.go)\<close>

text \<open>
  Modelled from the spec: \<^verbatim>\<open>pg.Placeholder\<close> is not in the sources. The spec's words:
  a placeholder allocator is a "monotonic generator of positional SQL parameter tokens".
  The allocator is a counter; \<^verbatim>\<open>p.Next()\<close> increments it and returns the token of the
  new position. The SQL text is kept as the list of its pieces in order, a piece being
  literal text or a parameter token, so that \<^verbatim>\<open>+\<close> on SQL strings is \<open>@\<close> and the
  empty string is \<open>[]\<close>; no literal of the sources is empty. \<open>params\<close> lists the
  parameter tokens of a SQL text in the order they occur.
\<close>

datatype sqlPart = Text string | Param nat
type_synonym sql = "sqlPart list"
type_synonym Placeholder = nat

definition Next :: "Placeholder \<Rightarrow> sqlPart \<times> Placeholder" where
  "Next p = (Param (p + 1), p + 1)"

type_synonym compiled = "error + (sql \<times> any list \<times> Placeholder)"

fun params :: "sql \<Rightarrow> nat list" where
  "params [] = []"
| "params (Text s # r) = params r"
| "params (Param n # r) = n # params r"


text \<open>
  The loop \<^verbatim>\<open>for _, o := range v.Options\<close> of \<^verbatim>\<open>scalar\<close>: \<^verbatim>\<open>'i'\<close> is
  appended to \<^verbatim>\<open>options\<close>, any other option sets \<^verbatim>\<open>err\<close> and the loop goes on.
\<close>

fun regexOptions :: "string \<Rightarrow> string \<Rightarrow> bool \<Rightarrow> string \<times> bool" where
  "regexOptions [] options failed = (options, failed)"
| "regexOptions (o' # os) options failed =
     (if o' = CHR ''i'' then regexOptions os (options @ ''i'') failed
      else regexOptions os options True)"

text \<open>
  \<^verbatim>\<open>scalar\<close>. \<^verbatim>\<open>bson.ObjectID(v).MarshalJSON()\<close> is not in the sources and is the
  parameter \<open>marshalJSON\<close> (\<open>None\<close> when it returns an error). The result is the error or
  \<^verbatim>\<open>(sql, args)\<close> with the state of the allocator. In the regex case the error set
  inside the loop is returned after \<^verbatim>\<open>p.Next()\<close> has been called.
\<close>

definition scalar :: "(ObjectID \<Rightarrow> string option) \<Rightarrow> any \<Rightarrow> Placeholder \<Rightarrow> compiled" where
  "scalar marshalJSON v p =
     (case v of
        VInt32 i \<Rightarrow>
          (let (ph, p) = Next p in Inr ([Text ''to_jsonb('', ph, Text ''::int4)''], [v], p))
      | VString s \<Rightarrow>
          (let (ph, p) = Next p in Inr ([Text ''to_jsonb('', ph, Text ''::text)''], [v], p))
      | VObjectID oid \<Rightarrow>
          (let (ph, p) = Next p in
           case marshalJSON oid of
             None \<Rightarrow> Inl (Wrap ''scalar'' (Errorf ''bson.ObjectID.MarshalJSON''))
           | Some b \<Rightarrow> Inr ([ph], [VString b], p))
      | VRegex pattern opts \<Rightarrow>
          (let (options, failed) = regexOptions opts [] False;
               (ph, p) = Next p;
               arg = (if options \<noteq> [] then ''(?'' @ options @ '')'' @ pattern else pattern)
           in if failed then Inl (Errorf ''scalar: unhandled regex option %v (%v)'')
              else Inr ([ph], [VString arg], p))
      | _ \<Rightarrow> Inl (Errorf ''scalar: unhandled field %v (%T)''))"

text \<open>
  Modelled from the spec: \<^verbatim>\<open>common.InArray\<close> is not in the sources. The spec's words:
  \<^verbatim>\<open>{field: {$in|$nin: [v...]}}\<close> is membership, compiled to "a parameterized SQL
  fragment and parallel parameter list". The elements are compiled by \<^verbatim>\<open>scalar\<close>
  one after the other with the same allocator, in a parenthesised, comma-separated list.
\<close>

fun InArray_loop ::
  "(ObjectID \<Rightarrow> string option) \<Rightarrow> any list \<Rightarrow> nat \<Rightarrow> sql \<Rightarrow> any list \<Rightarrow> Placeholder \<Rightarrow> compiled" where
  "InArray_loop mj [] i sql args p = Inr (sql, args, p)"
| "InArray_loop mj (el # els) i sql args p =
     (let sql = (if i \<noteq> 0 then sql @ [Text '', ''] else sql) in
      case scalar mj el p of
        Inl err \<Rightarrow> Inl (Wrap ''lazyerrors.Error'' err)
      | Inr (rightSQL, rightArgs, p) \<Rightarrow>
          InArray_loop mj els (i + 1) (sql @ rightSQL) (args @ rightArgs) p)"

definition InArray :: "(ObjectID \<Rightarrow> string option) \<Rightarrow> any list \<Rightarrow> Placeholder \<Rightarrow> compiled" where
  "InArray mj a p =
     (case InArray_loop mj a 0 [Text ''(''] [] p of
        Inl err \<Rightarrow> Inl err
      | Inr (sql, args, p) \<Rightarrow> Inr (sql @ [Text '')''], args, p))"

text \<open>
  The cases of \<^verbatim>\<open>switch op\<close> in \<^verbatim>\<open>fieldExpr\<close>. Each returns the error, or the
  extended \<^verbatim>\<open>sql\<close> together with \<^verbatim>\<open>argSql\<close>, \<^verbatim>\<open>arg\<close> and the allocator. An error
  of \<^verbatim>\<open>scalar\<close> or \<^verbatim>\<open>InArray\<close> leaves the switch and is wrapped by
  \<^verbatim>\<open>lazyerrors.Errorf("fieldExpr: %w", err)\<close>; the three command errors of the
  \<^verbatim>\<open>$regex\<close> case are returned at once, unwrapped. A failed type assertion
  \<^verbatim>\<open>value.(*types.Array)\<close> panics.

  \<open>compareOp\<close> is the case of \<^verbatim>\<open>$eq\<close>, \<^verbatim>\<open>$ne\<close>, \<^verbatim>\<open>$lt\<close>, \<^verbatim>\<open>$lte\<close>,
  \<^verbatim>\<open>$gt\<close>, \<^verbatim>\<open>$gte\<close>; \<open>inOp\<close> that of \<^verbatim>\<open>$in\<close> and \<^verbatim>\<open>$nin\<close>; \<open>regexOp\<close> that
  of \<^verbatim>\<open>$regex\<close>; the default case is the last line of \<open>opSwitch\<close>.
\<close>

definition compareOp ::
  "(ObjectID \<Rightarrow> string option) \<Rightarrow> string \<Rightarrow> any \<Rightarrow> sql \<Rightarrow> Placeholder
     \<Rightarrow> error + (sql \<times> sql \<times> any list \<times> Placeholder)" where
  "compareOp mj cmp v sql p =
     (let (ph, p) = Next p; sql = sql @ [Text ''_jsonb->'', ph, Text cmp] in
      case scalar mj v p of
        Inl err \<Rightarrow> Inl (Wrap ''fieldExpr'' err)
      | Inr (argSql, arg, p) \<Rightarrow> Inr (sql, argSql, arg, p))"

definition inOp ::
  "(ObjectID \<Rightarrow> string option) \<Rightarrow> string \<Rightarrow> any \<Rightarrow> sql \<Rightarrow> Placeholder
     \<Rightarrow> error + (sql \<times> sql \<times> any list \<times> Placeholder)" where
  "inOp mj cmp v sql p =
     (let (ph, p) = Next p; sql = sql @ [Text ''_jsonb->'', ph, Text cmp] in
      case v of
        VArrayPtr a \<Rightarrow>
          (case InArray mj a p of
             Inl err \<Rightarrow> Inl (Wrap ''fieldExpr'' err)
           | Inr (argSql, arg, p) \<Rightarrow> Inr (sql, argSql, arg, p))
      | _ \<Rightarrow> Inl (Panic ''interface conversion: interface {} is not *types.Array''))"

definition regexOp ::
  "(ObjectID \<Rightarrow> string option) \<Rightarrow> Document \<Rightarrow> any \<Rightarrow> sql \<Rightarrow> Placeholder
     \<Rightarrow> error + (sql \<times> sql \<times> any list \<times> Placeholder)" where
  "regexOp mj expr v sql p =
     (case (case map_of expr ''$options'' of
              None \<Rightarrow> Inr []
            | Some (VString s) \<Rightarrow> Inr s
            | Some _ \<Rightarrow> Inl (ErrorMessage ErrBadValue ''$options has to be a string'')) of
        Inl err \<Rightarrow> Inl err
      | Inr options \<Rightarrow>
         (let (ph, p) = Next p; sql = sql @ [Text ''_jsonb->>'', ph, Text '' ~''] in
          case v of
            VString s \<Rightarrow>
              (case scalar mj (VRegex s options) p of
                 Inl err \<Rightarrow> Inl (Wrap ''fieldExpr'' err)
               | Inr (argSql, arg, p) \<Rightarrow> Inr (sql, argSql, arg, p))
          | VRegex pattern opts \<Rightarrow>
              if options \<noteq> [] \<and> opts \<noteq> [] then
                Inl (ErrorMessage ErrRegexOptions ''options set in both $regex and $options'')
              else
                (let opts = (if options \<noteq> [] then options else opts) in
                 case scalar mj (VRegex pattern opts) p of
                   Inl err \<Rightarrow> Inl (Wrap ''fieldExpr'' err)
                 | Inr (argSql, arg, p) \<Rightarrow> Inr (sql, argSql, arg, p))
          | _ \<Rightarrow> Inl (ErrorMessage ErrBadValue ''$regex has to be a string'')))"

definition opSwitch ::
  "(ObjectID \<Rightarrow> string option) \<Rightarrow> Document \<Rightarrow> string \<Rightarrow> any \<Rightarrow> sql \<Rightarrow> Placeholder
     \<Rightarrow> error + (sql \<times> sql \<times> any list \<times> Placeholder)" where
  "opSwitch mj expr op v sql p =
     (if op = ''$in'' then inOp mj '' IN'' v sql p
      else if op = ''$nin'' then inOp mj '' NOT IN'' v sql p
      else if op = ''$eq'' then compareOp mj '' ='' v sql p
      else if op = ''$ne'' then compareOp mj '' <>'' v sql p
      else if op = ''$lt'' then compareOp mj '' <'' v sql p
      else if op = ''$lte'' then compareOp mj '' <='' v sql p
      else if op = ''$gt'' then compareOp mj '' >'' v sql p
      else if op = ''$gte'' then compareOp mj '' >='' v sql p
      else if op = ''$regex'' then regexOp mj expr v sql p
      else Inl (Wrap ''fieldExpr'' (Errorf ''unhandled {%q: %v}'')))"

text \<open>The size of a document, the measure of the recursion over nested documents.\<close>

definition docSize :: "Document \<Rightarrow> nat" where
  "docSize d = size_list (size_prod (\<lambda>_. 0) size) d"

lemma size_map_of: "map_of d k = Some v \<Longrightarrow> size v < docSize d"
  unfolding docSize_def
  by (induction d) (auto split: if_splits)

lemma MapIndex_size: "MapIndex d k = VDocument d' \<Longrightarrow> docSize d' < docSize d"
  using size_map_of [of d k "VDocument d'"]
  by (auto simp: MapIndex_def docSize_def split: option.splits)

lemma MapIndex_size_le: "size (MapIndex d k) < Suc (docSize d)"
  using size_map_of [of d k]
  by (auto simp: MapIndex_def split: option.splits)

text \<open>
  \<^verbatim>\<open>fieldExpr\<close> handles \<^verbatim>\<open>{field: {expr}}\<close>: the loop over \<^verbatim>\<open>expr.Keys()\<close> with
  \<^verbatim>\<open>sql\<close>, \<^verbatim>\<open>args\<close> and the allocator as loop state; \<^verbatim>\<open>filterMap[op]\<close> is
  \<open>MapIndex expr op\<close>. A failed type assertion \<^verbatim>\<open>value.(types.Document)\<close> panics.
\<close>

function fieldExpr ::
    "(ObjectID \<Rightarrow> string option) \<Rightarrow> string \<Rightarrow> Document \<Rightarrow> Placeholder \<Rightarrow> compiled"
  and fieldExpr_loop ::
    "(ObjectID \<Rightarrow> string option) \<Rightarrow> string \<Rightarrow> Document \<Rightarrow> string list \<Rightarrow> sql \<Rightarrow> any list
       \<Rightarrow> Placeholder \<Rightarrow> compiled"
where
  "fieldExpr mj field expr p = fieldExpr_loop mj field expr (Keys expr) [] [] p"
| "fieldExpr_loop mj field expr [] sql args p = Inr (sql, args, p)"
| "fieldExpr_loop mj field expr (op # ops) sql args p =
     (if op = ''$options'' then fieldExpr_loop mj field expr ops sql args p
      else
        let sql = (if sql \<noteq> [] then sql @ [Text '' AND''] else sql);
            v = MapIndex expr op
        in
        if op = ''$not'' then
          (let sql = (if sql \<noteq> [] then sql @ [Text '' ''] else sql) @ [Text ''NOT(''] in
           case v of
             VDocument d \<Rightarrow>
               (case fieldExpr mj field d p of
                  Inl err \<Rightarrow> Inl (Wrap ''fieldExpr'' err)
                | Inr (argSql, arg, p) \<Rightarrow>
                    fieldExpr_loop mj field expr ops (sql @ argSql @ [Text '')'']) (args @ arg) p)
           | _ \<Rightarrow> Inl (Panic ''interface conversion: interface {} is not types.Document''))
        else
          (let sql = (if sql \<noteq> [] then sql @ [Text '' ''] else sql);
               args = args @ [VString field]
           in
           case opSwitch mj expr op v sql p of
             Inl err \<Rightarrow> Inl err
           | Inr (sql, argSql, arg, p) \<Rightarrow>
               fieldExpr_loop mj field expr ops (sql @ [Text '' ''] @ argSql) (args @ arg) p))"
  by pat_completeness auto
termination
  apply (relation "measures [
           (\<lambda>x. case x of Inl (mj, field, expr, p) \<Rightarrow> docSize expr
                          | Inr (mj, field, expr, ops, sql, args, p) \<Rightarrow> docSize expr),
           (\<lambda>x. case x of Inl (mj, field, expr, p) \<Rightarrow> length (Keys expr) + 1
                          | Inr (mj, field, expr, ops, sql, args, p) \<Rightarrow> length ops)]")
       apply (auto simp: MapIndex_size)
  done

text \<open>
  Modelled from the spec: \<^verbatim>\<open>common.LogicExpr\<close> is not in the sources. The spec's words:
  \<^verbatim>\<open>{$and|$or|$nor: [expr...]}\<close> is logical composition; "$and/$or/$not nest the
  compiler re-entrantly" with "the placeholder allocator as an explicit parameter";
  "unknown operator -> BadValue". Every document of the array is compiled pair by pair
  with \<^verbatim>\<open>wherePair\<close> and the same allocator, the pairs of one document joined by
  AND, the documents joined by the operator, \<^verbatim>\<open>$nor\<close> negating the disjunction.

  \<^verbatim>\<open>wherePair\<close> is the function of the sources; it is defined together with
  \<open>LogicExpr\<close> because each calls the other.
\<close>

definition isLogicOp :: "string \<Rightarrow> bool" where
  "isLogicOp op = (op = ''$and'' \<or> op = ''$or'' \<or> op = ''$nor'')"

function wherePair ::
    "(ObjectID \<Rightarrow> string option) \<Rightarrow> string \<Rightarrow> any \<Rightarrow> Placeholder \<Rightarrow> compiled"
  and LogicExpr ::
    "(ObjectID \<Rightarrow> string option) \<Rightarrow> string \<Rightarrow> any list \<Rightarrow> Placeholder \<Rightarrow> compiled"
  and LogicExpr_exprs ::
    "(ObjectID \<Rightarrow> string option) \<Rightarrow> string \<Rightarrow> any list \<Rightarrow> nat \<Rightarrow> sql \<Rightarrow> any list
       \<Rightarrow> Placeholder \<Rightarrow> compiled"
  and LogicExpr_keys ::
    "(ObjectID \<Rightarrow> string option) \<Rightarrow> Document \<Rightarrow> string list \<Rightarrow> nat \<Rightarrow> sql \<Rightarrow> any list
       \<Rightarrow> Placeholder \<Rightarrow> compiled"
where
  "wherePair mj key v p =
     (if hasDollarPrefix key then
        (case v of
           VArrayPtr exprs \<Rightarrow> LogicExpr mj key exprs p
         | _ \<Rightarrow> Inl (Panic ''interface conversion: interface {} is not *types.Array''))
      else
        (case v of
           VDocument d \<Rightarrow>
             (case fieldExpr mj key d p of
                Inl err \<Rightarrow> Inl (Wrap ''wherePair'' err)
              | Inr r \<Rightarrow> Inr r)
         | _ \<Rightarrow>
             (let (ph, p) = Next p;
                  sql = (case v of
                           VRegex pattern opts \<Rightarrow> [Text ''_jsonb->>'', ph, Text '' ~ '']
                         | _ \<Rightarrow> [Text ''_jsonb->'', ph, Text '' = '']);
                  args = [VString key]
              in
              case scalar mj v p of
                Inl err \<Rightarrow> Inl (Wrap ''wherePair'' err)
              | Inr (scalarSQL, scalarArgs, p) \<Rightarrow>
                  Inr (sql @ scalarSQL, args @ scalarArgs, p))))"
| "LogicExpr mj op exprs p =
     (if \<not> isLogicOp op then Inl (ErrorMessage ErrBadValue ''unknown operator'')
      else
        case LogicExpr_exprs mj op exprs 0 (if op = ''$nor'' then [Text ''NOT (''] else []) [] p of
          Inl err \<Rightarrow> Inl err
        | Inr (sql, args, p) \<Rightarrow>
            Inr (if op = ''$nor'' then sql @ [Text '')''] else sql, args, p))"
| "LogicExpr_exprs mj op [] i sql args p = Inr (sql, args, p)"
| "LogicExpr_exprs mj op (e # es) i sql args p =
     (let sql = (if i \<noteq> 0 then sql @ [Text (if op = ''$and'' then '' AND '' else '' OR '')]
                 else sql)
      in
      case e of
        VDocument d \<Rightarrow>
          (case LogicExpr_keys mj d (Keys d) 0 sql args p of
             Inl err \<Rightarrow> Inl err
           | Inr (sql, args, p) \<Rightarrow> LogicExpr_exprs mj op es (i + 1) sql args p)
      | _ \<Rightarrow> Inl (Panic ''interface conversion: interface {} is not types.Document''))"
| "LogicExpr_keys mj d [] j sql args p = Inr (sql, args, p)"
| "LogicExpr_keys mj d (key # keys) j sql args p =
     (let sql = (if j \<noteq> 0 then sql @ [Text '' AND ''] else sql) in
      case wherePair mj key (MapIndex d key) p of
        Inl err \<Rightarrow> Inl (Wrap ''lazyerrors.Error'' err)
      | Inr (exprSQL, exprArgs, p) \<Rightarrow>
          LogicExpr_keys mj d keys (j + 1) (sql @ [Text ''(''] @ exprSQL @ [Text '')''])
            (args @ exprArgs) p)"
  by pat_completeness auto

termination
  apply (relation "measures [
           (\<lambda>x. case x of
                   Inl (Inl (mj, key, v, p)) \<Rightarrow> size v
                 | Inl (Inr (mj, op, exprs, p)) \<Rightarrow> size_list size exprs
                 | Inr (Inl (mj, op, exprs, i, sql, args, p)) \<Rightarrow> size_list size exprs
                 | Inr (Inr (mj, d, keys, j, sql, args, p)) \<Rightarrow> Suc (docSize d)),
           (\<lambda>x. case x of
                   Inl (Inl (mj, key, v, p)) \<Rightarrow> 0
                 | Inl (Inr (mj, op, exprs, p)) \<Rightarrow> 1
                 | Inr (Inl (mj, op, exprs, i, sql, args, p)) \<Rightarrow> 0
                 | Inr (Inr (mj, d, keys, j, sql, args, p)) \<Rightarrow> length keys)]")
       apply (auto simp: MapIndex_size_le [unfolded docSize_def] docSize_def)
  done

text \<open>
  \<^verbatim>\<open>where\<close> (\<open>where_filter\<close> here): nothing for a filter without keys, else the loop
  over \<^verbatim>\<open>filter.Keys()\<close>.
\<close>

fun where_loop ::
  "(ObjectID \<Rightarrow> string option) \<Rightarrow> Document \<Rightarrow> string list \<Rightarrow> nat \<Rightarrow> sql \<Rightarrow> any list
     \<Rightarrow> Placeholder \<Rightarrow> compiled" where
  "where_loop mj filterDoc [] i sql args p = Inr (sql, args, p)"
| "where_loop mj filterDoc (key # keys) i sql args p =
     (let v = MapIndex filterDoc key;
          sql = (if i \<noteq> 0 then sql @ [Text '' AND''] else sql)
      in
      case wherePair mj key v p of
        Inl err \<Rightarrow> Inl (Wrap ''where'' err)
      | Inr (argSql, arg, p) \<Rightarrow>
          where_loop mj filterDoc keys (i + 1) (sql @ [Text '' (''] @ argSql @ [Text '')''])
            (args @ arg) p)"

definition where_filter ::
  "(ObjectID \<Rightarrow> string option) \<Rightarrow> Document \<Rightarrow> Placeholder \<Rightarrow> compiled" where
  "where_filter mj filterDoc p =
     (if length (Keys filterDoc) = 0 then Inr ([], [], p)
      else where_loop mj filterDoc (Keys filterDoc) 0 [Text '' WHERE''] [] p)"


text \<open>
  \<open>bal p0 sql args p\<close>: the SQL text \<open>sql\<close> built while the allocator went from \<open>p0\<close>
  to \<open>p\<close> carries exactly the parameter tokens \<open>p0 + 1, ..., p\<close> in this order, and
  \<open>args\<close> has one entry for each.
\<close>

definition bal :: "Placeholder \<Rightarrow> sql \<Rightarrow> any list \<Rightarrow> Placeholder \<Rightarrow> bool" where
  "bal p0 sql args p = (p0 \<le> p \<and> params sql = [Suc p0..<Suc p] \<and> length args = p - p0)"

text \<open>The operators that \<^verbatim>\<open>fieldExpr\<close> handles.\<close>

definition knownOperators :: "string list" where
  "knownOperators = [''$not'', ''$options'', ''$in'', ''$nin'', ''$eq'', ''$ne'', ''$lt'', ''$lte'',
     ''$gt'', ''$gte'', ''$regex'']"

section \<open>Upsert (package common)\<close>

text \<open>
  What \<^verbatim>\<open>Upsert\<close> calls and the sources do not hold:
  \<^item> \<open>validSet\<close>: whether \<^verbatim>\<open>Document.Set(key, value)\<close> accepts the key and the value
    (it returns an error otherwise);
  \<^item> \<open>deepEqual\<close>: \<^verbatim>\<open>reflect.DeepEqual\<close> of the standard library;
  \<^item> \<open>mapRange\<close>: the entries of a Go map in the order in which
    \<^verbatim>\<open>for key, value := range d.Map()\<close> visits them, an order the Go runtime chooses.
\<close>

record runtime =
  validSet :: "string \<Rightarrow> any \<Rightarrow> bool"
  deepEqual :: "any \<Rightarrow> any \<Rightarrow> bool"
  mapRange :: "Document \<Rightarrow> Document"

text \<open>
  Modelled from the spec: \<^verbatim>\<open>types.Document.Set\<close> is not in the sources. The spec's
  words: a document is an "ordered mapping from string key to typed value. Insertion
  order is preserved", and values outside the type set are rejected "with a validation
  error". A key the document has keeps its place and gets the new value; a new key is
  appended.
\<close>

definition Set :: "runtime \<Rightarrow> Document \<Rightarrow> string \<Rightarrow> any \<Rightarrow> error + Document" where
  "Set rt d k v =
     (if validSet rt k v then Inr (AList.update k v d) else Inl (Errorf ''types.Document.Set''))"

text \<open>The type assertions \<^verbatim>\<open>value.(types.Document)\<close> and \<^verbatim>\<open>value.(types.Array)\<close>.\<close>

definition isDocument :: "any \<Rightarrow> bool" where
  "isDocument v = (case v of VDocument x \<Rightarrow> True | _ \<Rightarrow> False)"

definition isArray :: "any \<Rightarrow> bool" where
  "isArray v = (case v of VArray x \<Rightarrow> True | _ \<Rightarrow> False)"

text \<open>
  \<^verbatim>\<open>filterUpsert\<close>: the loop over \<^verbatim>\<open>filter.Map()\<close> with the new document and
  \<^verbatim>\<open>idFilter\<close> as loop state; the error of \<^verbatim>\<open>doc.Set\<close> is returned as it is.
\<close>

fun filterUpsert_loop ::
  "runtime \<Rightarrow> (string \<times> any) list \<Rightarrow> Document \<Rightarrow> bool \<Rightarrow> error + (Document \<times> bool)" where
  "filterUpsert_loop rt [] doc idFilter = Inr (doc, idFilter)"
| "filterUpsert_loop rt ((key, v) # rest) doc idFilter =
     (if hasDollarPrefix key then filterUpsert_loop rt rest doc idFilter
      else if isDocument v then filterUpsert_loop rt rest doc idFilter
      else if isArray v then filterUpsert_loop rt rest doc idFilter
      else
        (let idFilter = (if key = ''_id'' then True else idFilter) in
         case Set rt doc key v of
           Inl err \<Rightarrow> Inl err
         | Inr doc \<Rightarrow> filterUpsert_loop rt rest doc idFilter))"

definition filterUpsert :: "runtime \<Rightarrow> Document \<Rightarrow> error + (Document \<times> bool)" where
  "filterUpsert rt filterDoc = filterUpsert_loop rt (mapRange rt filterDoc) [] False"

text \<open>
  \<^verbatim>\<open>updateUpsert\<close>: \<^verbatim>\<open>setDocument\<close> is \<^verbatim>\<open>updateMap["$set"].(types.Document)\<close>,
  \<open>None\<close> where \<^verbatim>\<open>ok\<close> is false; then the loop over \<^verbatim>\<open>setDoc.Map()\<close> with the
  document \<^verbatim>\<open>d\<close> and \<^verbatim>\<open>idUpdate\<close> as loop state. The parameter \<^verbatim>\<open>idFilter\<close> is not
  used by the source either.
\<close>

fun updateUpsert_loop ::
  "runtime \<Rightarrow> (string \<times> any) list \<Rightarrow> Document \<Rightarrow> bool \<Rightarrow> error + (Document \<times> bool)" where
  "updateUpsert_loop rt [] d idUpdate = Inr (d, idUpdate)"
| "updateUpsert_loop rt ((key, v) # rest) d idUpdate =
     (if hasDollarPrefix key then updateUpsert_loop rt rest d idUpdate
      else case Get d key of
        Some dValue \<Rightarrow>
          if deepEqual rt v dValue then updateUpsert_loop rt rest d idUpdate
          else Inl (Errorf ''Key-value pair %s:%s from query document is not equal to same key-value pair %s:%s in update document'')
      | None \<Rightarrow>
         (let idUpdate = (if key = ''_id'' then True else idUpdate) in
          case Set rt d key v of
            Inl err \<Rightarrow> Inl (Wrap ''lazyerrors.Error'' err)
          | Inr d \<Rightarrow> updateUpsert_loop rt rest d idUpdate))"

definition setDocument :: "Document \<Rightarrow> Document option" where
  "setDocument updateDoc =
     (case map_of updateDoc ''$set'' of Some (VDocument setDoc) \<Rightarrow> Some setDoc | _ \<Rightarrow> None)"

definition updateUpsert ::
  "runtime \<Rightarrow> Document \<Rightarrow> bool \<Rightarrow> Document \<Rightarrow> error + (Document \<times> bool)" where
  "updateUpsert rt updateDoc idFilter d =
     (case setDocument updateDoc of
        None \<Rightarrow> Inr (d, False)
      | Some setDoc \<Rightarrow> updateUpsert_loop rt (mapRange rt setDoc) d False)"

text \<open>
  \<^verbatim>\<open>Upsert\<close>. The arguments \<open>unix\<close> and \<open>st\<close> are the clock and the ObjectID state
  that \<^verbatim>\<open>generateObjectID\<close> reads; the result is the error, or the returned document
  pointer (\<open>None\<close> is \<^verbatim>\<open>nil\<close>) with the new ObjectID state. The source assigns the
  error of \<^verbatim>\<open>updateUpsert\<close> to \<^verbatim>\<open>err\<close> and never reads it: \<^verbatim>\<open>doc\<close> is then
  \<^verbatim>\<open>nil\<close> and \<^verbatim>\<open>idUpdate\<close> false. \<^verbatim>\<open>doc.Set("_id", objId)\<close> on a \<^verbatim>\<open>nil\<close> pointer
  is a nil dereference; the error \<^verbatim>\<open>Set\<close> returns is dropped by the source.
\<close>

definition Upsert ::
  "runtime \<Rightarrow> int \<Rightarrow> objectIDState \<Rightarrow> Document \<Rightarrow> Document \<Rightarrow> bool
     \<Rightarrow> error + (Document option \<times> objectIDState)" where
  "Upsert rt unix st updateDoc filterDoc replace =
     (case (if replace then Inr (Some updateDoc, False, False)
            else case filterUpsert rt filterDoc of
                   Inl err \<Rightarrow> Inl (Wrap ''lazyerrors.Error'' err)
                 | Inr (d, idFilter) \<Rightarrow>
                     (case updateUpsert rt updateDoc idFilter d of
                        Inl err \<Rightarrow> Inr (None, idFilter, False)
                      | Inr (doc, idUpdate) \<Rightarrow> Inr (Some doc, idFilter, idUpdate))) of
        Inl err \<Rightarrow> Inl err
      | Inr (doc, idFilter, idUpdate) \<Rightarrow>
          if \<not> idFilter \<and> \<not> idUpdate then
            (let (objId, st) = generateObjectID unix st in
             case doc of
               None \<Rightarrow> Inl (Panic ''invalid memory address or nil pointer dereference'')
             | Some d \<Rightarrow>
                 (case Set rt d ''_id'' (VObjectID objId) of
                    Inl err \<Rightarrow> Inr (Some d, st)
                  | Inr d \<Rightarrow> Inr (Some d, st)))
          else Inr (doc, st))"

text \<open>
  The words of the claims about \<^verbatim>\<open>_id\<close>: the filter supplies \<^verbatim>\<open>_id\<close> when it has the
  key \<^verbatim>\<open>_id\<close> with a value that is neither a \<^verbatim>\<open>types.Document\<close> nor a
  \<^verbatim>\<open>types.Array\<close> (the two type assertions of \<^verbatim>\<open>filterUpsert\<close>); the update supplies
  it when its \<^verbatim>\<open>$set\<close> document has the key \<^verbatim>\<open>_id\<close>. \<open>visitsEachEntryOnce\<close> says of
  a map that \<^verbatim>\<open>range\<close> visits exactly its entries, each key once.
\<close>

definition isScalarValue :: "any \<Rightarrow> bool" where
  "isScalarValue v = (\<not> isDocument v \<and> \<not> isArray v)"

definition filterSuppliesId :: "Document \<Rightarrow> bool" where
  "filterSuppliesId filterDoc = list_ex (\<lambda>(k, v). k = ''_id'' \<and> isScalarValue v) filterDoc"

definition setSuppliesId :: "Document \<Rightarrow> bool" where
  "setSuppliesId updateDoc =
     (case setDocument updateDoc of Some setDoc \<Rightarrow> ''_id'' \<in> set (Keys setDoc) | None \<Rightarrow> False)"

definition visitsEachEntryOnce :: "runtime \<Rightarrow> Document \<Rightarrow> bool" where
  "visitsEachEntryOnce rt d = (set (mapRange rt d) = set d \<and> distinct (Keys (mapRange rt d)))"

text \<open>A runtime, and an ObjectID state, for concrete runs.\<close>

definition rt0 :: runtime where
  "rt0 = \<lparr>validSet = (\<lambda>k v. k \<noteq> []), deepEqual = (\<lambda>a b. a = b), mapRange = rev\<rparr>"

definition st0 :: objectIDState where
  "st0 = \<lparr>objectIDProcess = [1, 2, 3, 4, 5], objectIDCounter = 0\<rparr>"


section \<open>OP_QUERY decoding (package wire)\<close>













section \<open>Properties of ObjectID generation\<close>

lemma split_mod_2_24:
  "(n div 65536 mod 256) * 65536 + (n div 256 mod 256) * 256 + n mod 256 = (n::nat) mod 16777216"
proof -
  have a: "n mod (65536 * 256) = 65536 * (n div 65536 mod 256) + n mod 65536"
    by (rule mod_mult2_eq)
  have b: "n mod (256 * 256) = 256 * (n div 256 mod 256) + n mod 256"
    by (rule mod_mult2_eq)
  from a b show ?thesis by simp
qed

lemma low_three_bytes:
  "unat (ucast (drop_bit 16 c) :: byte) * 65536 + unat (ucast (drop_bit 8 c) :: byte) * 256
     + unat (ucast c :: byte) = unat (c::uint32) mod 16777216"
proof -
  have a: "unat (ucast (drop_bit 16 c) :: byte) = unat c div 65536 mod 256"
    by (simp only: unsigned_ucast_eq unat_drop_bit_eq) (simp add: take_bit_eq_mod drop_bit_eq_div)
  have b: "unat (ucast (drop_bit 8 c) :: byte) = unat c div 256 mod 256"
    by (simp only: unsigned_ucast_eq unat_drop_bit_eq) (simp add: take_bit_eq_mod drop_bit_eq_div)
  have c: "unat (ucast c :: byte) = unat c mod 256"
    by (simp only: unsigned_ucast_eq) (simp add: take_bit_eq_mod)
  show ?thesis unfolding a b c by (rule split_mod_2_24)
qed

lemma uint32_succ_mod_2_24:
  "unat (c + 1 :: uint32) mod 16777216 = (unat c mod 16777216 + 1) mod 16777216"
proof -
  have "unat (c + 1) = (unat c + 1) mod (16777216 * 256)"
    by (simp add: unat_word_ariths)
  then have "unat (c + 1) mod 16777216 = ((unat c + 1) mod (16777216 * 256)) mod 16777216"
    by simp
  also have "\<dots> = (unat c + 1) mod 16777216"
    by (rule mod_mod_cancel) simp
  finally show ?thesis by (simp add: mod_Suc_eq)
qed

lemma length_generateObjectID: "length (fst (generateObjectID t s)) = 12"
  by (simp add: generateObjectID_def Let_def PutUint32_def)

lemma nth_tail_bytes:
  assumes "length a = 4" and "length b = 5"
  shows "(a @ b @ c) ! 9 = c ! 0" and "(a @ b @ c) ! 10 = c ! 1" and "(a @ b @ c) ! 11 = c ! 2"
  using assms by (simp_all add: nth_append)

lemma counter24_generateObjectID:
  "counter24 (fst (generateObjectID t s)) = unat (objectIDCounter s + 1) mod 16777216"
proof -
  have a: "length (PutUint32 (word_of_int t)) = 4"
    by (simp add: PutUint32_def)
  have b: "length (take 5 (objectIDProcess s @ replicate 5 (0::byte))) = 5"
    by simp
  show ?thesis
    unfolding generateObjectID_def Let_def counter24_def fst_conv
    by (simp only: nth_tail_bytes [OF a b]) (simp add: low_three_bytes)
qed

lemma counter_generateObjectID:
  "objectIDCounter (snd (generateObjectID t s)) = objectIDCounter s + 1"
  by (simp add: generateObjectID_def Let_def)

text \<open>
  Claim C9. For two consecutive calls of \<^verbatim>\<open>generateObjectID\<close> (the second starts from the
  state the first one left, at any two clock readings), the 24-bit counter in bytes 9..11
  of the second ObjectID is the counter of the first plus one modulo \<open>2^24\<close>, whatever the
  most significant byte of the 32-bit counter is; hence the two ObjectIDs differ, also
  when both are generated within the same second.
\<close>

theorem generateObjectID_consecutive:
  "counter24 (fst (generateObjectID t2 (snd (generateObjectID t1 s))))
     = (counter24 (fst (generateObjectID t1 s)) + 1) mod 2 ^ 24
   \<and> fst (generateObjectID t2 (snd (generateObjectID t1 s))) \<noteq> fst (generateObjectID t1 s)"
proof -
  let ?id1 = "fst (generateObjectID t1 s)"
  let ?id2 = "fst (generateObjectID t2 (snd (generateObjectID t1 s)))"
  have step: "counter24 ?id2 = (counter24 ?id1 + 1) mod 16777216"
    by (simp only: counter24_generateObjectID counter_generateObjectID uint32_succ_mod_2_24)
  have bound: "counter24 ?id1 < 16777216"
    by (simp add: counter24_generateObjectID)
  have "(counter24 ?id1 + 1) mod 16777216 \<noteq> counter24 ?id1"
  proof (cases "counter24 ?id1 + 1 = 16777216")
    case True
    then show ?thesis by simp
  next
    case False
    with bound have "counter24 ?id1 + 1 < 16777216" by simp
    then show ?thesis by simp
  qed
  with step have "counter24 ?id2 \<noteq> counter24 ?id1" by simp
  then have "?id2 \<noteq> ?id1" by metis
  with step show ?thesis by simp
qed

section \<open>Properties of the command registry\<close>

lemma all_entries_OK: "list_all entryOK commands"
  unfolding entryOK_def by code_simp

text \<open>
  Claim C7, as the registry has it. Every key of the command registry equals the name of
  the command it maps to, as the name is written, capitals included; looking the key up
  finds that entry. The lowercase form of a key is itself a key of the entry only for the
  names without a capital letter. For \<^verbatim>\<open>getLastError\<close> the lowercase form is
  \<^verbatim>\<open>getlasterror\<close>, and looking it up finds the separate entry of that name, a
  different command with the same handler; for every other name with a capital the
  lowercase form is no key at all.
\<close>

theorem commands_key_is_name:
  assumes "(k, c) \<in> set commands"
  shows "name c = k \<and> map_of commands k = Some c \<and>
     map_of commands (ToLower k) =
       (if ToLower k = k then Some c
        else if k = ''getLastError'' then
          Some (cmd ''getlasterror''
            ''Does not return last error. Is used as a workaround to allow use of some GUIs.''
            MsgGetLastError)
        else None) \<and>
     (k = ''getLastError'' \<longrightarrow>
        ToLower k = ''getlasterror'' \<and>
        (case map_of commands ''getlasterror'' of
           Some c' \<Rightarrow> name c' = ''getlasterror'' \<and> c' \<noteq> c \<and> handler c' = handler c
         | None \<Rightarrow> False))"
proof -
  from assms all_entries_OK have "entryOK (k, c)"
    by (simp add: list_all_iff)
  then show ?thesis
    by (simp add: entryOK_def)
qed

theorem commands_key_is_name_witness:
  "(''getLastError'', cmd ''getLastError''
       ''Does not return last error. Is used as a workaround to allow use of some GUIs.''
       MsgGetLastError) \<in> set commands
   \<and> name (cmd ''getLastError''
       ''Does not return last error. Is used as a workaround to allow use of some GUIs.''
       MsgGetLastError) = ''getLastError''
   \<and> ToLower ''getLastError'' = ''getlasterror''
   \<and> map_of commands (ToLower ''getLastError'')
       = Some (cmd ''getlasterror''
           ''Does not return last error. Is used as a workaround to allow use of some GUIs.''
           MsgGetLastError)
   \<and> cmd ''getlasterror''
       ''Does not return last error. Is used as a workaround to allow use of some GUIs.''
       MsgGetLastError
     \<noteq> cmd ''getLastError''
       ''Does not return last error. Is used as a workaround to allow use of some GUIs.''
       MsgGetLastError
   \<and> handler (cmd ''getlasterror''
       ''Does not return last error. Is used as a workaround to allow use of some GUIs.''
       MsgGetLastError)
     = handler (cmd ''getLastError''
       ''Does not return last error. Is used as a workaround to allow use of some GUIs.''
       MsgGetLastError)"
proof -
  have mem: "(''getLastError'', cmd ''getLastError''
       ''Does not return last error. Is used as a workaround to allow use of some GUIs.''
       MsgGetLastError) \<in> set commands"
    by (simp add: commands_def)
  have low: "ToLower ''getLastError'' \<noteq> ''getLastError''"
    by (simp add: ToLower_def)
  note entry = commands_key_is_name [OF mem]
  from entry have tl: "ToLower ''getLastError'' = ''getlasterror''"
    by simp
  from entry low tl have other: "map_of commands ''getlasterror''
       = Some (cmd ''getlasterror''
           ''Does not return last error. Is used as a workaround to allow use of some GUIs.''
           MsgGetLastError)"
    by simp
  from entry other have sep: "cmd ''getlasterror''
       ''Does not return last error. Is used as a workaround to allow use of some GUIs.''
       MsgGetLastError
     \<noteq> cmd ''getLastError''
       ''Does not return last error. Is used as a workaround to allow use of some GUIs.''
       MsgGetLastError
   \<and> handler (cmd ''getlasterror''
       ''Does not return last error. Is used as a workaround to allow use of some GUIs.''
       MsgGetLastError)
     = handler (cmd ''getLastError''
       ''Does not return last error. Is used as a workaround to allow use of some GUIs.''
       MsgGetLastError)"
    by simp
  from entry mem tl other sep show ?thesis
    by simp
qed

text \<open>
  The registry entry \<^verbatim>\<open>buildInfo\<close>: its key is not the lowercase form of its name,
  and the lowercase form \<^verbatim>\<open>buildinfo\<close> is not a key of the registry.
\<close>

theorem commands_key_not_lowercase:
  "map_of commands ''buildInfo''
     = Some (cmd ''buildInfo'' ''Returns a summary of the build information.'' MsgBuildInfo)
   \<and> name (cmd ''buildInfo'' ''Returns a summary of the build information.'' MsgBuildInfo)
     = ''buildInfo''
   \<and> ToLower ''buildInfo'' = ''buildinfo''
   \<and> ''buildInfo'' \<noteq> ToLower ''buildInfo''
   \<and> map_of commands (ToLower ''buildInfo'') = None"
  by (simp add: commands_def cmd_def ToLower_def)

section \<open>Properties of fjson String decoding\<close>

text \<open>
  Claim C10. \<^verbatim>\<open>String.UnmarshalJSON\<close> is not total: on the input \<^verbatim>\<open>null\<close> it panics
  instead of returning an error. On every other input it does not panic: it returns an
  error exactly when the JSON decoder refuses the input, and the decoded string otherwise.
\<close>

theorem UnmarshalJSON_null_panics:
  "UnmarshalJSON u ''null'' = Inl (Panic ''null data'') \<and>
   (data \<noteq> ''null'' \<longrightarrow>
      (case UnmarshalJSON u data of
         Inl e \<Rightarrow> \<not> isPanic e \<and> u data = None
       | Inr s \<Rightarrow> u data = Some s))"
  by (simp add: UnmarshalJSON_def split: option.splits)

theorem UnmarshalJSON_null_panics_witness:
  "''nul'' \<noteq> ''null''
   \<and> UnmarshalJSON plainString ''null'' = Inl (Panic ''null data'')
   \<and> UnmarshalJSON plainString ''nul''
       = Inl (Wrap ''lazyerrors.Error'' (Errorf ''json.Unmarshal''))
   \<and> UnmarshalJSON plainString [CHR 0x22, CHR ''a'', CHR 0x22] = Inr ''a''"
  using UnmarshalJSON_null_panics [of plainString "''nul''"]
  by (simp add: UnmarshalJSON_def plainString_def)

section \<open>Properties of the projection compiler\<close>

lemma switch_cases:
  "projectionSwitch v = CaseBool b \<longleftrightarrow> v = VBool b"
  "projectionSwitch (VBool b) = CaseBool b"
  by (auto simp: projectionSwitch_def split: any.splits)

lemma incl_excl_disjoint: "isInclusionValue v \<Longrightarrow> \<not> isExclusionValue v"
  by (auto simp: isInclusionValue_def isExclusionValue_def projectionSwitch_def)

lemma loop_mixed:
  "inc \<or> hasInclusion p ks \<Longrightarrow> exc \<or> hasExclusion p ks \<Longrightarrow> \<not> (inc \<and> exc) \<Longrightarrow>
     \<exists>m. isProjectionInclusion_loop p ks inc exc = Inl (Errorf m)"
proof (induction ks arbitrary: inc exc)
  case Nil
  then show ?case by (auto simp: hasInclusion_def hasExclusion_def)
next
  case (Cons k ks)
  show ?case
  proof (cases "k = ''_id''")
    case True
    with Cons.prems have "inc \<or> hasInclusion p ks" "exc \<or> hasExclusion p ks"
      by (auto simp: hasInclusion_def hasExclusion_def)
    from Cons.IH [OF this Cons.prems(3)] True show ?thesis by simp
  next
    case nid: False
    show ?thesis
    proof (cases "Get p k")
      case None
      with nid show ?thesis by simp
    next
      case (Some v)
      have hi: "hasInclusion p (k # ks) = (isInclusionValue v \<or> hasInclusion p ks)"
        using nid Some by (simp add: hasInclusion_def)
      have he: "hasExclusion p (k # ks) = (isExclusionValue v \<or> hasExclusion p ks)"
        using nid Some by (simp add: hasExclusion_def)
      show ?thesis
      proof (cases "projectionSwitch v")
        case (CaseBool b)
        then have v: "v = VBool b" by (simp add: switch_cases)
        show ?thesis
        proof (cases b)
          case True
          then have iv: "isInclusionValue v" "\<not> isExclusionValue v"
            using v by (simp_all add: isInclusionValue_def isExclusionValue_def projectionSwitch_def)
          show ?thesis
          proof (cases "exc \<or> containsDot k")
            case True
            then show ?thesis using nid Some CaseBool \<open>b\<close> by auto
          next
            case False
            with Cons.prems(2) he iv have "hasExclusion p ks" by simp
            then have "\<exists>m. isProjectionInclusion_loop p ks True exc = Inl (Errorf m)"
              using Cons.IH [of True exc] False by simp
            then show ?thesis using nid Some CaseBool \<open>b\<close> False by simp
          qed
        next
          case False
          then have ev: "isExclusionValue v" "\<not> isInclusionValue v"
            using v by (simp_all add: isInclusionValue_def isExclusionValue_def projectionSwitch_def)
          show ?thesis
          proof (cases inc)
            case True
            then show ?thesis using nid Some CaseBool False by simp
          next
            case ninc: False
            with Cons.prems(1) hi ev have "hasInclusion p ks" by simp
            then have "\<exists>m. isProjectionInclusion_loop p ks inc True = Inl (Errorf m)"
              using Cons.IH [of inc True] ninc by simp
            then show ?thesis using nid Some CaseBool False ninc by simp
          qed
        qed
      next
        case CaseNumber
        show ?thesis
        proof (cases "equalsZero v")
          case True
          then have ev: "isExclusionValue v" "\<not> isInclusionValue v"
            using CaseNumber by (auto simp add: isInclusionValue_def isExclusionValue_def switch_cases)
          show ?thesis
          proof (cases inc)
            case True
            then show ?thesis using nid Some CaseNumber \<open>equalsZero v\<close> by simp
          next
            case ninc: False
            with Cons.prems(1) hi ev have "hasInclusion p ks" by simp
            then have "\<exists>m. isProjectionInclusion_loop p ks inc True = Inl (Errorf m)"
              using Cons.IH [of inc True] ninc by simp
            then show ?thesis using nid Some CaseNumber \<open>equalsZero v\<close> ninc by simp
          qed
        next
          case False
          then have iv: "isInclusionValue v" "\<not> isExclusionValue v"
            using CaseNumber by (auto simp add: isInclusionValue_def isExclusionValue_def switch_cases)
          show ?thesis
          proof (cases "exc \<or> containsDot k")
            case True
            then show ?thesis using nid Some CaseNumber \<open>\<not> equalsZero v\<close> by auto
          next
            case nex: False
            with Cons.prems(2) he iv have "hasExclusion p ks" by simp
            then have "\<exists>m. isProjectionInclusion_loop p ks True exc = Inl (Errorf m)"
              using Cons.IH [of True exc] nex by simp
            then show ?thesis using nid Some CaseNumber \<open>\<not> equalsZero v\<close> nex by simp
          qed
        qed
      next
        case CaseDefault
        then show ?thesis using nid Some by simp
      qed
    qed
  qed
qed

lemma loop_exclusion:
  "\<forall>k\<in>set ks. k \<noteq> ''_id'' \<longrightarrow> (\<exists>v. Get p k = Some v \<and> isExclusionValue v) \<Longrightarrow>
     isProjectionInclusion_loop p ks False exc = Inr False"
proof (induction ks arbitrary: exc)
  case Nil
  then show ?case by simp
next
  case (Cons k ks)
  show ?case
  proof (cases "k = ''_id''")
    case True
    then show ?thesis using Cons by simp
  next
    case False
    with Cons.prems obtain v where v: "Get p k = Some v" "isExclusionValue v" by auto
    from Cons have ih: "\<And>exc. isProjectionInclusion_loop p ks False exc = Inr False" by simp
    from v(2) show ?thesis
      using False v(1) ih
      by (auto simp: isExclusionValue_def switch_cases)
  qed
qed

lemma loop_inclusion:
  "\<forall>k\<in>set ks. k \<noteq> ''_id'' \<longrightarrow> (\<exists>v. Get p k = Some v \<and> isInclusionValue v) \<Longrightarrow>
     isProjectionInclusion_loop p ks inc False =
       (if \<exists>k\<in>set ks. k \<noteq> ''_id'' \<and> containsDot k
        then Inl (Errorf ''Projection on nested documents is not implemented, yet.'')
        else Inr (inc \<or> (\<exists>k\<in>set ks. k \<noteq> ''_id'')))"
proof (induction ks arbitrary: inc)
  case Nil
  then show ?case by simp
next
  case (Cons k ks)
  from Cons have ih: "\<And>inc. isProjectionInclusion_loop p ks inc False =
       (if \<exists>k\<in>set ks. k \<noteq> ''_id'' \<and> containsDot k
        then Inl (Errorf ''Projection on nested documents is not implemented, yet.'')
        else Inr (inc \<or> (\<exists>k\<in>set ks. k \<noteq> ''_id'')))" by simp
  show ?case
  proof (cases "k = ''_id''")
    case True
    then show ?thesis using ih by simp
  next
    case False
    with Cons.prems obtain v where v: "Get p k = Some v" "isInclusionValue v" by auto
    from v(2) show ?thesis
      using False v(1) ih
      by (auto simp: isInclusionValue_def switch_cases)
  qed
qed

lemma Get_distinct: "distinct (Keys p) \<Longrightarrow> (k, v) \<in> set p \<Longrightarrow> Get p k = Some v"
  by (simp add: Keys_def Get_def)

lemma Keys_Get: "k \<in> set (Keys p) \<Longrightarrow> \<exists>v. (k, v) \<in> set p \<and> Get p k = Some v"
  unfolding Keys_def Get_def
  by (metis (no_types, opaque_lifting) domD domI dom_map_of_conv_image_fst map_of_SomeD set_map)

text \<open>
  Claim C4, as the code has it. For a projection document with distinct keys:
  if it carries, on keys other than \<^verbatim>\<open>_id\<close>, both an inclusion value and an exclusion
  value, then \<^verbatim>\<open>isProjectionInclusion\<close> fails with a plain \<^verbatim>\<open>lazyerrors\<close> error (it
  carries no \<^verbatim>\<open>BadValue\<close> code) and \<^verbatim>\<open>Projection\<close> fails;
  if all its values on keys other than \<^verbatim>\<open>_id\<close> are exclusion values, then
  \<^verbatim>\<open>isProjectionInclusion\<close> succeeds with \<^verbatim>\<open>false\<close>, and \<^verbatim>\<open>Projection\<close> returns
  \<^verbatim>\<open>*\<close> once \<^verbatim>\<open>Unimplemented\<close> has passed;
  if all its values on keys other than \<^verbatim>\<open>_id\<close> are inclusion values, then
  \<^verbatim>\<open>isProjectionInclusion\<close> succeeds exactly when none of those keys contains a dot,
  and fails with "Projection on nested documents is not implemented, yet." otherwise.
  The value of \<^verbatim>\<open>_id\<close> plays no part in any of the three.
\<close>

theorem Projection_modes:
  assumes "distinct (Keys p)"
  shows
   "((\<exists>k1 v1 k2 v2. (k1, v1) \<in> set p \<and> k1 \<noteq> ''_id'' \<and> isInclusionValue v1
          \<and> (k2, v2) \<in> set p \<and> k2 \<noteq> ''_id'' \<and> isExclusionValue v2)
       \<longrightarrow> (\<exists>m. isProjectionInclusion p = Inl (Errorf m)) \<and> (\<exists>e. Projection u p = Inl e))
    \<and> ((\<forall>(k, v) \<in> set p. k \<noteq> ''_id'' \<longrightarrow> isExclusionValue v)
       \<longrightarrow> isProjectionInclusion p = Inr False
           \<and> (u p unimplementedFields = None \<longrightarrow> Projection u p = Inr (''*'', p \<noteq> [])))
    \<and> ((\<forall>(k, v) \<in> set p. k \<noteq> ''_id'' \<longrightarrow> isInclusionValue v)
       \<longrightarrow> isProjectionInclusion p =
             (if \<exists>k\<in>set (Keys p). k \<noteq> ''_id'' \<and> containsDot k
              then Inl (Errorf ''Projection on nested documents is not implemented, yet.'')
              else Inr (\<exists>k\<in>set (Keys p). k \<noteq> ''_id'')))"
proof (intro conjI impI)
  assume "\<exists>k1 v1 k2 v2. (k1, v1) \<in> set p \<and> k1 \<noteq> ''_id'' \<and> isInclusionValue v1
          \<and> (k2, v2) \<in> set p \<and> k2 \<noteq> ''_id'' \<and> isExclusionValue v2"
  then obtain k1 v1 k2 v2 where
    a: "(k1, v1) \<in> set p" "k1 \<noteq> ''_id''" "isInclusionValue v1" and
    b: "(k2, v2) \<in> set p" "k2 \<noteq> ''_id''" "isExclusionValue v2" by blast
  from a assms have "hasInclusion p (Keys p)"
    unfolding hasInclusion_def list_ex_iff
    by (intro bexI [of _ k1]) (auto simp: Get_distinct Keys_def intro: rev_image_eqI)
  moreover from b assms have "hasExclusion p (Keys p)"
    unfolding hasExclusion_def list_ex_iff
    by (intro bexI [of _ k2]) (auto simp: Get_distinct Keys_def intro: rev_image_eqI)
  ultimately show m: "\<exists>m. isProjectionInclusion p = Inl (Errorf m)"
    unfolding isProjectionInclusion_def by (intro loop_mixed) simp_all
  from a have "Keys p \<noteq> []" by (auto simp: Keys_def)
  with m show "\<exists>e. Projection u p = Inl e"
    by (auto simp: Projection_def split: option.splits)
next
  assume ex: "\<forall>(k, v) \<in> set p. k \<noteq> ''_id'' \<longrightarrow> isExclusionValue v"
  have "\<forall>k\<in>set (Keys p). k \<noteq> ''_id'' \<longrightarrow> (\<exists>v. Get p k = Some v \<and> isExclusionValue v)"
    using ex Keys_Get [of _ p] by fastforce
  then show r: "isProjectionInclusion p = Inr False"
    unfolding isProjectionInclusion_def by (rule loop_exclusion)
  assume "u p unimplementedFields = None"
  with r show "Projection u p = Inr (''*'', p \<noteq> [])"
    by (simp add: Projection_def Keys_def)
next
  assume inc: "\<forall>(k, v) \<in> set p. k \<noteq> ''_id'' \<longrightarrow> isInclusionValue v"
  have "\<forall>k\<in>set (Keys p). k \<noteq> ''_id'' \<longrightarrow> (\<exists>v. Get p k = Some v \<and> isInclusionValue v)"
    using inc Keys_Get [of _ p] by fastforce
  from loop_inclusion [OF this, of False]
  show "isProjectionInclusion p =
             (if \<exists>k\<in>set (Keys p). k \<noteq> ''_id'' \<and> containsDot k
              then Inl (Errorf ''Projection on nested documents is not implemented, yet.'')
              else Inr (\<exists>k\<in>set (Keys p). k \<noteq> ''_id''))"
    unfolding isProjectionInclusion_def by simp
qed

theorem Projection_modes_witness:
  "distinct (Keys [(''_id'', VBool False), (''a'', VBool True), (''b'', VInt32 0)])
   \<and> isProjectionInclusion [(''_id'', VBool False), (''a'', VBool True), (''b'', VInt32 0)]
       = Inl (Errorf ''Cannot do exclusion on field #{k} in inclusion projection'')
   \<and> isProjectionInclusion [(''_id'', VBool True), (''b'', VInt32 0)] = Inr False
   \<and> Projection (\<lambda>d fs. None) [(''_id'', VBool True), (''b'', VInt32 0)] = Inr (''*'', True)
   \<and> isProjectionInclusion [(''_id'', VBool False), (''a'', VInt64 1), (''b'', VBool True)] = Inr True
   \<and> isProjectionInclusion [(''_id'', VBool False), (''a.c'', VInt64 1)]
       = Inl (Errorf ''Projection on nested documents is not implemented, yet.'')"
  using Projection_modes [of "[(''_id'', VBool False), (''a'', VBool True), (''b'', VInt32 0)]" "\<lambda>d fs. None"]
    Projection_modes [of "[(''_id'', VBool True), (''b'', VInt32 0)]" "\<lambda>d fs. None"]
  by (simp add: isProjectionInclusion_def Keys_def Get_def projectionSwitch_def equalsZero_def
      containsDot_def Projection_def unimplementedFields_def)

text \<open>
  The projection \<^verbatim>\<open>{a: true, b: false}\<close> mixes the modes: the error is a plain
  \<^verbatim>\<open>lazyerrors\<close> error, not a \<^verbatim>\<open>BadValue\<close> command error. The projection
  \<^verbatim>\<open>{"a.b": true}\<close> uses the inclusion mode alone and fails.
\<close>

theorem Projection_mixed_not_BadValue:
  "isProjectionInclusion [(''a'', VBool True), (''b'', VBool False)]
     = Inl (Errorf ''Cannot do exclusion on field #{k} in inclusion projection'')
   \<and> errorCode (Errorf ''Cannot do exclusion on field #{k} in inclusion projection'')
     \<noteq> Some ErrBadValue
   \<and> Projection (\<lambda>d fs. None) [(''a.b'', VBool True)]
     = Inl (Errorf ''Projection on nested documents is not implemented, yet.'')"
  by (simp add: isProjectionInclusion_def Keys_def Get_def projectionSwitch_def equalsZero_def
      containsDot_def Projection_def unimplementedFields_def)

section \<open>Properties of the filter compiler\<close>

lemma params_append [simp]: "params (a @ b) = params a @ params b"
  by (induction a rule: params.induct) simp_all

lemma bal_refl [simp]: "bal p [] [] p"
  by (simp add: bal_def)

lemma bal_text [simp]: "bal p0 (sql @ [Text t]) args p = bal p0 sql args p"
  by (simp add: bal_def)

lemma bal_text_front [simp]: "bal p0 (Text t # sql) args p = bal p0 sql args p"
  by (simp add: bal_def)

lemma upt_join: "a \<le> b \<Longrightarrow> b \<le> c \<Longrightarrow> [a..<b] @ [b..<c] = [a..<c]"
  by (metis le_Suc_ex upt_add_eq_append)

lemma bal_trans:
  "bal p0 s1 a1 p1 \<Longrightarrow> bal p1 s2 a2 p2 \<Longrightarrow> bal p0 (s1 @ s2) (a1 @ a2) p2"
proof -
  assume a: "bal p0 s1 a1 p1" and b: "bal p1 s2 a2 p2"
  then have le: "p0 \<le> p1" "p1 \<le> p2" by (simp_all add: bal_def)
  have "params (s1 @ s2) = [Suc p0..<Suc p1] @ [Suc p1..<Suc p2]"
    using a b by (simp add: bal_def del: upt_Suc)
  also have "\<dots> = [Suc p0..<Suc p2]"
    using le by (intro upt_join) simp_all
  finally show ?thesis
    using a b le by (simp add: bal_def del: upt_Suc)
qed

lemma bal_param:
  "bal p0 sql args p \<Longrightarrow> bal p0 (sql @ [Text a, Param (Suc p), Text b]) (args @ [x]) (Suc p)"
  by (auto simp: bal_def)

lemma scalar_bal: "scalar mj v p = Inr (s, a, p') \<Longrightarrow> bal p s a p'"
  by (auto simp: scalar_def Next_def bal_def Let_def split: any.splits option.splits prod.splits if_splits)

lemma InArray_loop_bal:
  "bal p0 sql args p \<Longrightarrow> InArray_loop mj els i sql args p = Inr (s, a, p') \<Longrightarrow> bal p0 s a p'"
proof (induction els arbitrary: i sql args p)
  case Nil
  then show ?case by simp
next
  case (Cons el els)
  from Cons.prems(2) obtain rs ra p1 where
    sc: "scalar mj el p = Inr (rs, ra, p1)" and
    rest: "InArray_loop mj els (i + 1) ((if i \<noteq> 0 then sql @ [Text '', ''] else sql) @ rs)
             (args @ ra) p1 = Inr (s, a, p')"
    by (auto simp: Let_def split: sum.splits)
  from Cons.prems(1) have "bal p0 (if i \<noteq> 0 then sql @ [Text '', ''] else sql) args p"
    by simp
  from bal_trans [OF this scalar_bal [OF sc]] rest show ?case
    by (rule Cons.IH)
qed

lemma InArray_bal: "InArray mj a p = Inr (s, ar, p') \<Longrightarrow> bal p s ar p'"
proof -
  assume "InArray mj a p = Inr (s, ar, p')"
  then obtain s0 where l: "InArray_loop mj a 0 [Text ''(''] [] p = Inr (s0, ar, p')"
    and s: "s = s0 @ [Text '')'']"
    by (auto simp: InArray_def split: sum.splits)
  have "bal p [Text ''(''] [] p" by simp
  from InArray_loop_bal [OF this l] s show ?thesis by simp
qed

lemma compareOp_bal:
  "compareOp mj cmp v sql p = Inr (sql', argSql, arg, p') \<Longrightarrow>
     sql' = sql @ [Text ''_jsonb->'', Param (Suc p), Text cmp] \<and> bal (Suc p) argSql arg p'"
  by (auto simp: compareOp_def Next_def Let_def scalar_bal split: sum.splits)

lemma inOp_bal:
  "inOp mj cmp v sql p = Inr (sql', argSql, arg, p') \<Longrightarrow>
     sql' = sql @ [Text ''_jsonb->'', Param (Suc p), Text cmp] \<and> bal (Suc p) argSql arg p'"
  by (auto simp: inOp_def Next_def Let_def InArray_bal split: sum.splits any.splits)

lemma regexOp_bal:
  "regexOp mj expr v sql p = Inr (sql', argSql, arg, p') \<Longrightarrow>
     sql' = sql @ [Text ''_jsonb->>'', Param (Suc p), Text '' ~''] \<and> bal (Suc p) argSql arg p'"
  by (auto simp: regexOp_def Next_def Let_def scalar_bal split: sum.splits any.splits option.splits if_splits)

lemma opSwitch_bal:
  "opSwitch mj expr op v sql p = Inr (sql', argSql, arg, p') \<Longrightarrow>
     (\<exists>a b. sql' = sql @ [Text a, Param (Suc p), Text b]) \<and> bal (Suc p) argSql arg p'"
  unfolding opSwitch_def
  by (auto split: if_splits dest!: compareOp_bal inOp_bal regexOp_bal)

lemma fieldExpr_bal_aux:
  "(\<forall>s a p'. fieldExpr mj field expr p = Inr (s, a, p') \<longrightarrow> bal p s a p')"
  "(\<forall>p0 s a p'. bal p0 sql args p \<longrightarrow>
      fieldExpr_loop mj field expr ops sql args p = Inr (s, a, p') \<longrightarrow> bal p0 s a p')"
proof (induction mj field expr p and mj field expr ops sql args p
       rule: fieldExpr_fieldExpr_loop.induct)
  case (1 mj field expr p)
  then show ?case by simp
next
  case (2 mj field expr sql args p)
  then show ?case by simp
next
  case (3 mj field expr op ops sql args p)
  let ?sqlA = "if sql \<noteq> [] then sql @ [Text '' AND''] else sql"
  let ?sqlN = "(if ?sqlA \<noteq> [] then ?sqlA @ [Text '' ''] else ?sqlA) @ [Text ''NOT('']"
  let ?sqlS = "if ?sqlA \<noteq> [] then ?sqlA @ [Text '' ''] else ?sqlA"
  show ?case
  proof (intro allI impI)
    fix p0 s a p'
    assume b: "bal p0 sql args p"
      and r: "fieldExpr_loop mj field expr (op # ops) sql args p = Inr (s, a, p')"
    have bN: "bal p0 ?sqlN args p" using b by auto
    have bS: "bal p0 ?sqlS args p" using b by auto
    show "bal p0 s a p'"
    proof (cases "op = ''$options''")
      case True
      with r have "fieldExpr_loop mj field expr ops sql args p = Inr (s, a, p')" by simp
      with "3.IH"(1) [OF True] b show ?thesis by blast
    next
      case nopt: False
      show ?thesis
      proof (cases "op = ''$not''")
        case True
        from r nopt True obtain d s1 a1 p1 where
          d: "MapIndex expr op = VDocument d" and
          f: "fieldExpr mj field d p = Inr (s1, a1, p1)" and
          l: "fieldExpr_loop mj field expr ops (?sqlN @ s1 @ [Text '')'']) (args @ a1) p1
                = Inr (s, a, p')"
          by (auto simp: Let_def simp del: fieldExpr.simps split: any.splits sum.splits)
        have b1: "bal p s1 a1 p1"
          using "3.IH"(2) [OF nopt refl refl True refl d] f by blast
        have "bal p0 ((?sqlN @ s1) @ [Text '')'']) (args @ a1) p1"
          using bal_trans [OF bN b1] by (simp only: bal_text)
        then have "bal p0 (?sqlN @ s1 @ [Text '')'']) (args @ a1) p1"
          by (simp only: append_assoc)
        with "3.IH"(3) [OF nopt refl refl True refl d f refl refl] l
        show ?thesis by blast
      next
        case nnot: False
        from r nopt nnot obtain sql' argSql arg p1 where
          o: "opSwitch mj expr op (MapIndex expr op) ?sqlS p = Inr (sql', argSql, arg, p1)" and
          l: "fieldExpr_loop mj field expr ops (sql' @ [Text '' ''] @ argSql)
                ((args @ [VString field]) @ arg) p1 = Inr (s, a, p')"
          by (auto simp: Let_def split: sum.splits)
        from opSwitch_bal [OF o] obtain ta tb where
          sql': "sql' = ?sqlS @ [Text ta, Param (Suc p), Text tb]" and
          b2: "bal (Suc p) argSql arg p1" by blast
        have "bal p0 sql' (args @ [VString field]) (Suc p)"
          unfolding sql' by (rule bal_param [OF bS])
        then have "bal p0 (sql' @ [Text '' '']) (args @ [VString field]) (Suc p)"
          by (simp only: bal_text)
        from bal_trans [OF this b2]
        have "bal p0 (sql' @ [Text '' ''] @ argSql) ((args @ [VString field]) @ arg) p1"
          by (simp only: append_assoc)
        with "3.IH"(4) [OF nopt refl refl nnot refl refl o refl refl refl] l
        show ?thesis by blast
      qed
    qed
  qed
qed

lemma fieldExpr_bal: "fieldExpr mj field expr p = Inr (s, a, p') \<Longrightarrow> bal p s a p'"
  using fieldExpr_bal_aux(1) by blast

declare fieldExpr.simps [simp del] wherePair.simps [simp del] LogicExpr.simps [simp del]

lemma scalar_after_param:
  assumes "scalar mj v (Suc p) = Inr (ss, sa, p')"
  shows "bal p ([Text a, Param (Suc p), Text b] @ ss) (x # sa) p'"
proof -
  have "bal p ([] @ [Text a, Param (Suc p), Text b]) ([] @ [x]) (Suc p)"
    by (rule bal_param) simp
  from bal_trans [OF this scalar_bal [OF assms]] show ?thesis by simp
qed

lemma wherePair_scalar_bal:
  assumes "\<not> hasDollarPrefix key" and "\<forall>d. v \<noteq> VDocument d"
    and "wherePair mj key v p = Inr (s, a, p')"
  shows "bal p s a p'"
proof -
  from assms obtain ta tb ss sa where
    "scalar mj v (Suc p) = Inr (ss, sa, p')"
    "s = [Text ta, Param (Suc p), Text tb] @ ss" "a = VString key # sa"
    by (cases v) (auto simp: wherePair.simps Next_def Let_def split: sum.splits)
  then show ?thesis
    using scalar_after_param by simp
qed

lemma wherePair_bal_aux:
  "(\<forall>s a p'. wherePair mj key v p = Inr (s, a, p') \<longrightarrow> bal p s a p')"
  "(\<forall>s a p'. LogicExpr mj op exprs p = Inr (s, a, p') \<longrightarrow> bal p s a p')"
  "(\<forall>p0 s a p'. bal p0 sql args p \<longrightarrow>
      LogicExpr_exprs mj op exprs i sql args p = Inr (s, a, p') \<longrightarrow> bal p0 s a p')"
  "(\<forall>p0 s a p'. bal p0 sql args p \<longrightarrow>
      LogicExpr_keys mj d keys j sql args p = Inr (s, a, p') \<longrightarrow> bal p0 s a p')"
proof (induction mj key v p and mj op exprs p and mj op exprs i sql args p
         and mj d keys j sql args p
       rule: wherePair_LogicExpr_LogicExpr_exprs_LogicExpr_keys.induct)
  case (1 mj key v p)
  show ?case
  proof (intro allI impI)
    fix s a p'
    assume r: "wherePair mj key v p = Inr (s, a, p')"
    show "bal p s a p'"
    proof (cases "hasDollarPrefix key")
      case True
      with r obtain exprs where v: "v = VArrayPtr exprs"
        and l: "LogicExpr mj key exprs p = Inr (s, a, p')"
        by (auto simp: wherePair.simps split: any.splits)
      from "1.IH" [OF True v] l show ?thesis by blast
    next
      case False
      show ?thesis
      proof (cases "\<exists>d. v = VDocument d")
        case True
        then obtain d where "v = VDocument d" by blast
        with r False have "fieldExpr mj key d p = Inr (s, a, p')"
          by (auto simp: wherePair.simps split: sum.splits)
        then show ?thesis by (rule fieldExpr_bal)
      next
        case nd: False
        show ?thesis
          by (rule wherePair_scalar_bal [OF False _ r]) (use nd in blast)
      qed
    qed
  qed
next
  case (2 mj op exprs p)
  show ?case
  proof (intro allI impI)
    fix s a p'
    assume r: "LogicExpr mj op exprs p = Inr (s, a, p')"
    let ?sql0 = "if op = ''$nor'' then [Text ''NOT (''] else []"
    from r have lo: "\<not> \<not> isLogicOp op"
      by (auto simp: LogicExpr.simps split: if_splits)
    from r lo obtain s0 where
      l: "LogicExpr_exprs mj op exprs 0 ?sql0 [] p = Inr (s0, a, p')" and
      s: "s = (if op = ''$nor'' then s0 @ [Text '')''] else s0)"
      by (auto simp: LogicExpr.simps split: sum.splits if_splits)
    have "bal p ?sql0 [] p" by simp
    with "2.IH" [OF lo] l have "bal p s0 a p'" by blast
    with s show "bal p s a p'" by simp
  qed
next
  case (3 mj op i sql args p)
  then show ?case by simp
next
  case (4 mj op e es i sql args p)
  let ?sql1 = "if i \<noteq> 0 then sql @ [Text (if op = ''$and'' then '' AND '' else '' OR '')] else sql"
  show ?case
  proof (intro allI impI)
    fix p0 s a p'
    assume b: "bal p0 sql args p"
      and r: "LogicExpr_exprs mj op (e # es) i sql args p = Inr (s, a, p')"
    have b1: "bal p0 ?sql1 args p" using b by auto
    from r obtain d s1 a1 p1 where
      e: "e = VDocument d" and
      k: "LogicExpr_keys mj d (Keys d) 0 ?sql1 args p = Inr (s1, a1, p1)" and
      l: "LogicExpr_exprs mj op es (i + 1) s1 a1 p1 = Inr (s, a, p')"
      by (auto simp: Let_def split: any.splits sum.splits)
    from "4.IH"(1) [OF refl e] b1 k have "bal p0 s1 a1 p1" by blast
    with "4.IH"(2) [OF refl e k refl refl] l show "bal p0 s a p'" by blast
  qed
next
  case (5 mj d j sql args p)
  then show ?case by simp
next
  case (6 mj d key keys j sql args p)
  let ?sql1 = "if j \<noteq> 0 then sql @ [Text '' AND ''] else sql"
  show ?case
  proof (intro allI impI)
    fix p0 s a p'
    assume b: "bal p0 sql args p"
      and r: "LogicExpr_keys mj d (key # keys) j sql args p = Inr (s, a, p')"
    have b1: "bal p0 (?sql1 @ [Text ''('']) args p" using b by auto
    from r obtain s1 a1 p1 where
      w: "wherePair mj key (MapIndex d key) p = Inr (s1, a1, p1)" and
      l: "LogicExpr_keys mj d keys (j + 1) (?sql1 @ [Text ''(''] @ s1 @ [Text '')''])
            (args @ a1) p1 = Inr (s, a, p')"
      by (auto simp: Let_def split: sum.splits)
    from "6.IH"(1) [OF refl] w have "bal p s1 a1 p1" by blast
    from bal_trans [OF b1 this]
    have "bal p0 (((?sql1 @ [Text ''('']) @ s1) @ [Text '')'']) (args @ a1) p1"
      by (simp only: bal_text)
    then have "bal p0 (?sql1 @ [Text ''(''] @ s1 @ [Text '')'']) (args @ a1) p1"
      by (simp only: append_assoc)
    with "6.IH"(2) [OF refl w refl refl] l show "bal p0 s a p'" by blast
  qed
qed

lemma wherePair_bal: "wherePair mj key v p = Inr (s, a, p') \<Longrightarrow> bal p s a p'"
  using wherePair_bal_aux(1) by blast

lemma where_loop_bal:
  "bal p0 sql args p \<Longrightarrow> where_loop mj f keys i sql args p = Inr (s, a, p') \<Longrightarrow> bal p0 s a p'"
proof (induction keys arbitrary: i sql args p)
  case Nil
  then show ?case by simp
next
  case (Cons key keys)
  let ?sql1 = "if i \<noteq> 0 then sql @ [Text '' AND''] else sql"
  from Cons.prems(2) obtain s1 a1 p1 where
    w: "wherePair mj key (MapIndex f key) p = Inr (s1, a1, p1)" and
    l: "where_loop mj f keys (i + 1) (?sql1 @ [Text '' (''] @ s1 @ [Text '')'']) (args @ a1) p1
          = Inr (s, a, p')"
    by (auto simp: Let_def split: sum.splits)
  have "bal p0 (?sql1 @ [Text '' ('']) args p" using Cons.prems(1) by auto
  from bal_trans [OF this wherePair_bal [OF w]]
  have "bal p0 (((?sql1 @ [Text '' ('']) @ s1) @ [Text '')'']) (args @ a1) p1"
    by (simp only: bal_text)
  then have "bal p0 (?sql1 @ [Text '' (''] @ s1 @ [Text '')'']) (args @ a1) p1"
    by (simp only: append_assoc)
  from Cons.IH [OF this l] show ?case .
qed

text \<open>
  Claim C1. For every filter document that \<^verbatim>\<open>where\<close> compiles without error (through
  \<^verbatim>\<open>wherePair\<close>, \<^verbatim>\<open>fieldExpr\<close> and \<^verbatim>\<open>scalar\<close>), the number of parameter
  placeholders in the emitted WHERE fragment equals the length of the returned argument
  list. More precisely the placeholders are the positions \<open>p + 1, ..., p'\<close> in this
  order, where the allocator went from \<open>p\<close> to \<open>p'\<close>, one argument for each.
\<close>

theorem where_placeholders:
  assumes "where_filter mj f p = Inr (sql, args, p')"
  shows "length (params sql) = length args \<and> params sql = [p + 1..<p' + 1] \<and> p' = p + length args"
proof -
  have "bal p sql args p'"
  proof (cases "length (Keys f) = 0")
    case True
    with assms show ?thesis by (simp add: where_filter_def)
  next
    case False
    with assms have "where_loop mj f (Keys f) 0 [Text '' WHERE''] [] p = Inr (sql, args, p')"
      by (simp add: where_filter_def)
    moreover have "bal p [Text '' WHERE''] [] p" by simp
    ultimately show ?thesis by (rule where_loop_bal [rotated])
  qed
  then show ?thesis by (auto simp: bal_def)
qed

theorem where_placeholders_witness:
  "where_filter (\<lambda>oid. None)
      [(''a'', VInt32 5),
       (''b'', VDocument [(''$regex'', VString ''^A''), (''$options'', VString ''i'')]),
       (''$or'', VArrayPtr [VDocument [(''c'', VString ''z'')],
                         VDocument [(''d'', VDocument [(''$in'', VArrayPtr [VInt32 1, VInt32 2])])]])] 0
     = Inr ([Text '' WHERE'',
             Text '' ('', Text ''_jsonb->'', Param 1, Text '' = '',
               Text ''to_jsonb('', Param 2, Text ''::int4)'', Text '')'',
             Text '' AND'',
             Text '' ('', Text ''_jsonb->>'', Param 3, Text '' ~'', Text '' '', Param 4, Text '')'',
             Text '' AND'',
             Text '' ('', Text ''('', Text ''_jsonb->'', Param 5, Text '' = '',
               Text ''to_jsonb('', Param 6, Text ''::text)'', Text '')'',
               Text '' OR '', Text ''('', Text ''_jsonb->'', Param 7, Text '' IN'', Text '' '',
               Text ''('', Text ''to_jsonb('', Param 8, Text ''::int4)'', Text '', '',
               Text ''to_jsonb('', Param 9, Text ''::int4)'', Text '')'', Text '')'', Text '')''],
            [VString ''a'', VInt32 5, VString ''b'', VString ''(?i)^A'', VString ''c'',
             VString ''z'', VString ''d'', VInt32 1, VInt32 2],
            9)
   \<and> length (params [Text '' WHERE'',
             Text '' ('', Text ''_jsonb->'', Param 1, Text '' = '',
               Text ''to_jsonb('', Param 2, Text ''::int4)'', Text '')'',
             Text '' AND'',
             Text '' ('', Text ''_jsonb->>'', Param 3, Text '' ~'', Text '' '', Param 4, Text '')'',
             Text '' AND'',
             Text '' ('', Text ''('', Text ''_jsonb->'', Param 5, Text '' = '',
               Text ''to_jsonb('', Param 6, Text ''::text)'', Text '')'',
               Text '' OR '', Text ''('', Text ''_jsonb->'', Param 7, Text '' IN'', Text '' '',
               Text ''('', Text ''to_jsonb('', Param 8, Text ''::int4)'', Text '', '',
               Text ''to_jsonb('', Param 9, Text ''::int4)'', Text '')'', Text '')'', Text '')''])
     = length [VString ''a'', VInt32 5, VString ''b'', VString ''(?i)^A'', VString ''c'',
             VString ''z'', VString ''d'', VInt32 1, VInt32 2]"
proof -
  have e: "where_filter (\<lambda>oid. None)
      [(''a'', VInt32 5),
       (''b'', VDocument [(''$regex'', VString ''^A''), (''$options'', VString ''i'')]),
       (''$or'', VArrayPtr [VDocument [(''c'', VString ''z'')],
                         VDocument [(''d'', VDocument [(''$in'', VArrayPtr [VInt32 1, VInt32 2])])]])] 0
     = Inr ([Text '' WHERE'',
             Text '' ('', Text ''_jsonb->'', Param 1, Text '' = '',
               Text ''to_jsonb('', Param 2, Text ''::int4)'', Text '')'',
             Text '' AND'',
             Text '' ('', Text ''_jsonb->>'', Param 3, Text '' ~'', Text '' '', Param 4, Text '')'',
             Text '' AND'',
             Text '' ('', Text ''('', Text ''_jsonb->'', Param 5, Text '' = '',
               Text ''to_jsonb('', Param 6, Text ''::text)'', Text '')'',
               Text '' OR '', Text ''('', Text ''_jsonb->'', Param 7, Text '' IN'', Text '' '',
               Text ''('', Text ''to_jsonb('', Param 8, Text ''::int4)'', Text '', '',
               Text ''to_jsonb('', Param 9, Text ''::int4)'', Text '')'', Text '')'', Text '')''],
            [VString ''a'', VInt32 5, VString ''b'', VString ''(?i)^A'', VString ''c'',
             VString ''z'', VString ''d'', VInt32 1, VInt32 2],
            9)"
    by code_simp
  from where_placeholders [OF e] e show ?thesis by simp
qed

text \<open>
  Claim C3, as the code has it. For every field expression \<^verbatim>\<open>{field: {op: v}}\<close> whose
  operator is none of \<^verbatim>\<open>$not\<close>, \<^verbatim>\<open>$options\<close>, \<^verbatim>\<open>$in\<close>, \<^verbatim>\<open>$nin\<close>, \<^verbatim>\<open>$eq\<close>,
  \<^verbatim>\<open>$ne\<close>, \<^verbatim>\<open>$lt\<close>, \<^verbatim>\<open>$lte\<close>, \<^verbatim>\<open>$gt\<close>, \<^verbatim>\<open>$gte\<close>, \<^verbatim>\<open>$regex\<close>, the filter
  compiler fails: \<^verbatim>\<open>fieldExpr\<close> returns the plain error "unhandled {op: v}" wrapped by
  \<^verbatim>\<open>lazyerrors\<close>, which carries no command error code (so not \<^verbatim>\<open>BadValue\<close>), and
  \<^verbatim>\<open>where\<close> returns it wrapped twice more when the field name does not start with
  \<^verbatim>\<open>$\<close>.
\<close>

theorem fieldExpr_unknown_operator:
  assumes "op \<notin> set knownOperators"
  shows "fieldExpr mj field [(op, v)] p = Inl (Wrap ''fieldExpr'' (Errorf ''unhandled {%q: %v}''))
    \<and> errorCode (Wrap ''fieldExpr'' (Errorf ''unhandled {%q: %v}'')) = None
    \<and> (\<not> hasDollarPrefix field \<longrightarrow>
         where_filter mj [(field, VDocument [(op, v)])] p
           = Inl (Wrap ''where'' (Wrap ''wherePair'' (Wrap ''fieldExpr''
                    (Errorf ''unhandled {%q: %v}'')))))"
proof -
  have f: "\<And>p. fieldExpr mj field [(op, v)] p
             = Inl (Wrap ''fieldExpr'' (Errorf ''unhandled {%q: %v}''))"
    using assms
    by (simp add: fieldExpr.simps Keys_def knownOperators_def opSwitch_def Let_def)
  then show ?thesis
    by (simp add: where_filter_def Keys_def wherePair.simps MapIndex_def Let_def)
qed

theorem fieldExpr_unknown_operator_witness:
  "''$exists'' \<notin> set knownOperators
   \<and> fieldExpr (\<lambda>oid. None) ''a'' [(''$exists'', VBool True)] 0
       = Inl (Wrap ''fieldExpr'' (Errorf ''unhandled {%q: %v}''))
   \<and> where_filter (\<lambda>oid. None) [(''a'', VDocument [(''$exists'', VBool True)])] 0
       = Inl (Wrap ''where'' (Wrap ''wherePair'' (Wrap ''fieldExpr''
                (Errorf ''unhandled {%q: %v}''))))"
proof -
  have k: "''$exists'' \<notin> set knownOperators"
    by (simp add: knownOperators_def)
  have h: "\<not> hasDollarPrefix ''a''"
    by (simp add: hasDollarPrefix_def)
  from fieldExpr_unknown_operator [OF k, of "\<lambda>oid. None" "''a''" "VBool True" 0] k h
  show ?thesis by simp
qed

text \<open>
  The field expression \<^verbatim>\<open>{a: {$exists: true}}\<close>: the error of \<^verbatim>\<open>fieldExpr\<close> is not a
  \<^verbatim>\<open>BadValue\<close> error.
\<close>

theorem fieldExpr_unknown_operator_not_BadValue:
  "fieldExpr (\<lambda>oid. None) ''a'' [(''$exists'', VBool True)] 0
       = Inl (Wrap ''fieldExpr'' (Errorf ''unhandled {%q: %v}''))
   \<and> errorCode (Wrap ''fieldExpr'' (Errorf ''unhandled {%q: %v}'')) \<noteq> Some ErrBadValue"
  by (simp add: fieldExpr.simps Keys_def opSwitch_def Let_def MapIndex_def)

lemma regexOptions_eq:
  "regexOptions s acc failed
     = (acc @ filter (\<lambda>c. c = CHR ''i'') s, failed \<or> (\<exists>c\<in>set s. c \<noteq> CHR ''i''))"
  by (induction s arbitrary: acc failed) auto

lemma scalar_regex:
  "scalar mj (VRegex pat s) p =
     (if list_all (\<lambda>c. c = CHR ''i'') s
      then Inr ([Param (p + 1)], [VString (if s \<noteq> [] then ''(?'' @ s @ '')'' @ pat else pat)], p + 1)
      else Inl (Errorf ''scalar: unhandled regex option %v (%v)''))"
proof (cases "list_all (\<lambda>c. c = CHR ''i'') s")
  case True
  then have "filter (\<lambda>c. c = CHR ''i'') s = s"
    by (simp add: list_all_iff)
  with True show ?thesis
    by (auto simp: scalar_def regexOptions_eq Next_def list_all_iff)
next
  case False
  then show ?thesis
    by (auto simp: scalar_def regexOptions_eq Next_def list_all_iff)
qed

text \<open>
  Claim C2, as the code has it. For a field expression with the two keys \<^verbatim>\<open>$regex\<close>
  and \<^verbatim>\<open>$options\<close>, in either order, where the \<^verbatim>\<open>$regex\<close> value is a regex value and
  the \<^verbatim>\<open>$options\<close> value is a non-empty string \<open>s\<close>: if the regex value carries
  non-empty options, \<^verbatim>\<open>fieldExpr\<close> fails with the \<^verbatim>\<open>RegexOptions\<close> error; if it
  carries none, the string \<open>s\<close> is used as its options and no \<^verbatim>\<open>RegexOptions\<close> error
  is raised: the compilation succeeds, with the argument \<^verbatim>\<open>(?s)pattern\<close>, exactly when
  every character of \<open>s\<close> is \<^verbatim>\<open>i\<close>, and fails with the plain error "unhandled regex
  option" of \<^verbatim>\<open>scalar\<close> otherwise.
\<close>

theorem fieldExpr_regex_options:
  assumes "s \<noteq> []"
  shows
   "(opts \<noteq> [] \<longrightarrow>
       fieldExpr mj field [(''$regex'', VRegex pat opts), (''$options'', VString s)] p
         = Inl (ErrorMessage ErrRegexOptions ''options set in both $regex and $options'')
       \<and> fieldExpr mj field [(''$options'', VString s), (''$regex'', VRegex pat opts)] p
         = Inl (ErrorMessage ErrRegexOptions ''options set in both $regex and $options''))
    \<and> fieldExpr mj field [(''$regex'', VRegex pat []), (''$options'', VString s)] p
        = (if list_all (\<lambda>c. c = CHR ''i'') s
           then Inr ([Text ''_jsonb->>'', Param (p + 1), Text '' ~'', Text '' '', Param (p + 2)],
                     [VString field, VString (''(?'' @ s @ '')'' @ pat)], p + 2)
           else Inl (Wrap ''fieldExpr'' (Errorf ''scalar: unhandled regex option %v (%v)'')))
    \<and> fieldExpr mj field [(''$options'', VString s), (''$regex'', VRegex pat [])] p
        = fieldExpr mj field [(''$regex'', VRegex pat []), (''$options'', VString s)] p"
  using assms
  by (simp add: fieldExpr.simps Keys_def MapIndex_def opSwitch_def regexOp_def Next_def
      scalar_regex Let_def)

theorem fieldExpr_regex_options_witness:
  "''i'' \<noteq> []
   \<and> fieldExpr (\<lambda>oid. None) ''name'' [(''$regex'', VRegex ''^A'' ''i''), (''$options'', VString ''i'')] 0
       = Inl (ErrorMessage ErrRegexOptions ''options set in both $regex and $options'')
   \<and> fieldExpr (\<lambda>oid. None) ''name'' [(''$regex'', VRegex ''^A'' []), (''$options'', VString ''i'')] 0
       = Inr ([Text ''_jsonb->>'', Param 1, Text '' ~'', Text '' '', Param 2],
              [VString ''name'', VString ''(?i)^A''], 2)"
  using fieldExpr_regex_options [of "''i''" "''i''" "\<lambda>oid. None" "''name''" "''^A''" 0]
  by simp

text \<open>
  The field expression \<^verbatim>\<open>{name: {$regex: /^A/, $options: "m"}}\<close>: the regex value
  carries no options, and the compilation fails.
\<close>

theorem fieldExpr_regex_options_unsupported:
  "fieldExpr (\<lambda>oid. None) ''name'' [(''$regex'', VRegex ''^A'' []), (''$options'', VString ''m'')] 0
     = Inl (Wrap ''fieldExpr'' (Errorf ''scalar: unhandled regex option %v (%v)''))"
  by (simp add: fieldExpr.simps Keys_def MapIndex_def opSwitch_def regexOp_def Next_def
      scalar_def Let_def)

section \<open>Properties of Upsert\<close>

lemma Get_update: "Get (AList.update k v d) k' = (if k' = k then Some v else Get d k')"
  by (simp add: Get_def update_conv')

lemma Keys_update:
  "set (Keys (AList.update k v d)) = insert k (set (Keys d))"
  by (auto simp: Keys_def update_keys)

lemma Get_None_iff: "Get d k = None \<longleftrightarrow> k \<notin> set (Keys d)"
  by (simp add: Get_def Keys_def map_of_eq_None_iff)

lemma not_dollar_id: "\<not> hasDollarPrefix ''_id''"
  by (simp add: hasDollarPrefix_def)

lemma Set_Inr: "Set rt d k v = Inr d' \<Longrightarrow> d' = AList.update k v d"
  by (auto simp: Set_def split: if_splits)

lemma filterUpsert_loop_id:
  "filterUpsert_loop rt xs doc idF = Inr (doc', idF') \<Longrightarrow>
     idF' = (idF \<or> filterSuppliesId xs)
     \<and> (''_id'' \<in> set (Keys doc')) = (''_id'' \<in> set (Keys doc) \<or> filterSuppliesId xs)
     \<and> (\<forall>k \<in> set (Keys doc'). k \<in> set (Keys doc) \<or> \<not> hasDollarPrefix k)"
proof (induction xs arbitrary: doc idF)
  case Nil
  then show ?case by (simp add: filterSuppliesId_def)
next
  case (Cons x xs)
  obtain key v where x: "x = (key, v)" by (cases x)
  show ?case
  proof (cases "hasDollarPrefix key \<or> \<not> isScalarValue v")
    case True
    with Cons.prems x have "filterUpsert_loop rt xs doc idF = Inr (doc', idF')"
      by (auto simp: isScalarValue_def split: if_splits)
    from Cons.IH [OF this] True x show ?thesis
      using not_dollar_id by (auto simp: filterSuppliesId_def)
  next
    case False
    then have nd: "\<not> hasDollarPrefix key" and sc: "isScalarValue v" by simp_all
    from Cons.prems x nd sc obtain doc1 where
      s: "Set rt doc key v = Inr doc1" and
      l: "filterUpsert_loop rt xs doc1 (if key = ''_id'' then True else idF) = Inr (doc', idF')"
      by (auto simp: isScalarValue_def Let_def split: sum.splits)
    from Cons.IH [OF l] show ?thesis
      using nd sc x by (auto simp: Set_Inr [OF s] Keys_update filterSuppliesId_def)
  qed
qed

lemma updateUpsert_loop_props:
  "updateUpsert_loop rt xs d idU = Inr (d', idU') \<Longrightarrow>
     idU' = (idU \<or> (''_id'' \<in> fst ` set xs \<and> ''_id'' \<notin> set (Keys d)))
     \<and> (\<forall>k dv. Get d k = Some dv \<longrightarrow> Get d' k = Some dv)
     \<and> (\<forall>k. Get d' k \<noteq> None \<longrightarrow> Get d k \<noteq> None \<or> (\<exists>v. (k, v) \<in> set xs \<and> Get d' k = Some v))"
proof (induction xs arbitrary: d idU)
  case Nil
  then show ?case by simp
next
  case (Cons x xs)
  obtain key v where x: "x = (key, v)" by (cases x)
  show ?case
  proof (cases "hasDollarPrefix key")
    case True
    with Cons.prems x have "updateUpsert_loop rt xs d idU = Inr (d', idU')" by simp
    from Cons.IH [OF this] True x show ?thesis
      using not_dollar_id by auto
  next
    case nd: False
    show ?thesis
    proof (cases "Get d key")
      case (Some dValue)
      with Cons.prems x nd have "updateUpsert_loop rt xs d idU = Inr (d', idU')"
        by (auto split: if_splits)
      from Cons.IH [OF this] Some x show ?thesis
        by (auto simp: Get_None_iff [symmetric])
    next
      case None
      with Cons.prems x nd obtain d1 where
        s: "Set rt d key v = Inr d1" and
        l: "updateUpsert_loop rt xs d1 (if key = ''_id'' then True else idU) = Inr (d', idU')"
        by (auto simp: Let_def split: sum.splits)
      have d1: "d1 = AList.update key v d" by (rule Set_Inr [OF s])
      from Cons.IH [OF l] have
        a: "idU' = ((if key = ''_id'' then True else idU) \<or> (''_id'' \<in> fst ` set xs \<and> ''_id'' \<notin> set (Keys d1)))"
        and b: "\<forall>k dv. Get d1 k = Some dv \<longrightarrow> Get d' k = Some dv"
        and c: "\<forall>k. Get d' k \<noteq> None \<longrightarrow> Get d1 k \<noteq> None \<or> (\<exists>v. (k, v) \<in> set xs \<and> Get d' k = Some v)"
        by blast+
      have 1: "idU' = (idU \<or> (''_id'' \<in> fst ` set (x # xs) \<and> ''_id'' \<notin> set (Keys d)))"
        using a None x by (auto simp: d1 Keys_update Get_None_iff)
      have 2: "\<forall>k dv. Get d k = Some dv \<longrightarrow> Get d' k = Some dv"
      proof (intro allI impI)
        fix k dv assume g: "Get d k = Some dv"
        with None have "k \<noteq> key" by auto
        with g have "Get d1 k = Some dv" by (simp add: d1 Get_update)
        with b show "Get d' k = Some dv" by blast
      qed
      have 3: "\<forall>k. Get d' k \<noteq> None \<longrightarrow> Get d k \<noteq> None \<or> (\<exists>v. (k, v) \<in> set (x # xs) \<and> Get d' k = Some v)"
      proof (intro allI impI)
        fix k assume k: "Get d' k \<noteq> None"
        show "Get d k \<noteq> None \<or> (\<exists>v. (k, v) \<in> set (x # xs) \<and> Get d' k = Some v)"
        proof (cases "k = key")
          case True
          have "Get d1 key = Some v" by (simp add: d1 Get_update)
          with b have "Get d' key = Some v" by blast
          with True x show ?thesis by auto
        next
          case False
          with c k have "Get d1 k \<noteq> None \<or> (\<exists>v. (k, v) \<in> set xs \<and> Get d' k = Some v)" by blast
          with False show ?thesis by (auto simp: d1 Get_update)
        qed
      qed
      from 1 2 3 show ?thesis by blast
    qed
  qed
qed

lemma filterUpsert_loop_values:
  "filterUpsert_loop rt xs doc idF = Inr (doc', idF') \<Longrightarrow> Get doc' k = Some v \<Longrightarrow>
     Get doc k = Some v \<or> (k, v) \<in> set xs"
proof (induction xs arbitrary: doc idF)
  case Nil
  then show ?case by simp
next
  case (Cons x xs)
  obtain key w where x: "x = (key, w)" by (cases x)
  show ?case
  proof (cases "hasDollarPrefix key \<or> isDocument w \<or> isArray w")
    case True
    with Cons.prems x have "filterUpsert_loop rt xs doc idF = Inr (doc', idF')"
      by (auto split: if_splits)
    from Cons.IH [OF this Cons.prems(2)] show ?thesis by auto
  next
    case False
    with Cons.prems x obtain doc1 where
      s: "Set rt doc key w = Inr doc1" and
      l: "filterUpsert_loop rt xs doc1 (if key = ''_id'' then True else idF) = Inr (doc', idF')"
      by (auto simp: Let_def split: sum.splits)
    from Cons.IH [OF l Cons.prems(2)] show ?thesis
      using x by (auto simp: Set_Inr [OF s] Get_update split: if_splits)
  qed
qed

lemma updateUpsert_loop_added:
  "updateUpsert_loop rt xs d idU = Inr (d', idU') \<Longrightarrow> (k, v) \<in> set xs \<Longrightarrow>
     \<not> hasDollarPrefix k \<Longrightarrow> Get d' k \<noteq> None"
proof (induction xs arbitrary: d idU)
  case Nil
  then show ?case by simp
next
  case (Cons x xs)
  obtain key w where x: "x = (key, w)" by (cases x)
  show ?case
  proof (cases "hasDollarPrefix key")
    case True
    with Cons.prems x have l: "updateUpsert_loop rt xs d idU = Inr (d', idU')" by simp
    from True Cons.prems x have "(k, v) \<in> set xs" by auto
    from Cons.IH [OF l this Cons.prems(3)] show ?thesis .
  next
    case nd: False
    show ?thesis
    proof (cases "Get d key")
      case (Some dValue)
      with Cons.prems x nd have l: "updateUpsert_loop rt xs d idU = Inr (d', idU')"
        by (auto split: if_splits)
      show ?thesis
      proof (cases "k = key")
        case True
        with Some updateUpsert_loop_props [OF l] show ?thesis by auto
      next
        case False
        with Cons.prems x have "(k, v) \<in> set xs" by auto
        from Cons.IH [OF l this Cons.prems(3)] show ?thesis .
      qed
    next
      case None
      with Cons.prems x nd obtain d1 where
        s: "Set rt d key w = Inr d1" and
        l: "updateUpsert_loop rt xs d1 (if key = ''_id'' then True else idU) = Inr (d', idU')"
        by (auto simp: Let_def split: sum.splits)
      show ?thesis
      proof (cases "k = key")
        case True
        have "Get d1 key = Some w" by (simp add: Set_Inr [OF s] Get_update)
        with True updateUpsert_loop_props [OF l] show ?thesis by auto
      next
        case False
        with Cons.prems x have "(k, v) \<in> set xs" by auto
        from Cons.IH [OF l this Cons.prems(3)] show ?thesis .
      qed
    qed
  qed
qed

lemma updateUpsert_loop_conflict:
  "(k, v) \<in> set xs \<Longrightarrow> \<not> hasDollarPrefix k \<Longrightarrow> Get d k = Some dv \<Longrightarrow> \<not> deepEqual rt v dv \<Longrightarrow>
     \<exists>e. updateUpsert_loop rt xs d idU = Inl e \<and> errorCode e = None"
proof (induction xs arbitrary: d idU)
  case Nil
  then show ?case by simp
next
  case (Cons x xs)
  obtain key w where x: "x = (key, w)" by (cases x)
  show ?case
  proof (cases "hasDollarPrefix key")
    case True
    with Cons.prems x have "(k, v) \<in> set xs" by auto
    from Cons.IH [OF this Cons.prems(2-4)] True x show ?thesis by simp
  next
    case nd: False
    show ?thesis
    proof (cases "Get d key")
      case (Some dValue)
      show ?thesis
      proof (cases "deepEqual rt w dValue")
        case True
        with Cons.prems x Some have "(k, v) \<in> set xs" by auto
        from Cons.IH [OF this Cons.prems(2-4)] True Some nd x show ?thesis by simp
      next
        case False
        with Some nd x show ?thesis by simp
      qed
    next
      case None
      show ?thesis
      proof (cases "Set rt d key w")
        case (Inl err)
        then have "err = Errorf ''types.Document.Set''"
          by (auto simp: Set_def split: if_splits)
        with Inl None nd x show ?thesis by simp
      next
        case (Inr d1)
        from None Cons.prems x have kk: "k \<noteq> key" and mem: "(k, v) \<in> set xs" by auto
        with Cons.prems(3) have "Get d1 k = Some dv"
          by (simp add: Set_Inr [OF Inr] Get_update)
        from Cons.IH [OF mem Cons.prems(2) this Cons.prems(4)] Inr None nd x
        show ?thesis by simp
      qed
    qed
  qed
qed

lemma updateUpsert_loop_proceeds:
  "distinct (map fst xs) \<Longrightarrow>
   \<forall>(k, v) \<in> set xs. \<not> hasDollarPrefix k \<longrightarrow>
      (case Get d k of Some dv \<Rightarrow> deepEqual rt v dv | None \<Rightarrow> validSet rt k v) \<Longrightarrow>
     \<exists>d' idU'. updateUpsert_loop rt xs d idU = Inr (d', idU')"
proof (induction xs arbitrary: d idU)
  case Nil
  then show ?case by simp
next
  case (Cons x xs)
  obtain key w where x: "x = (key, w)" by (cases x)
  from Cons.prems x have dist: "distinct (map fst xs)" and fresh: "key \<notin> fst ` set xs" by auto
  from Cons.prems(2) have rest: "\<forall>(k, v) \<in> set xs. \<not> hasDollarPrefix k \<longrightarrow>
      (case Get d k of Some dv \<Rightarrow> deepEqual rt v dv | None \<Rightarrow> validSet rt k v)" by auto
  show ?case
  proof (cases "hasDollarPrefix key")
    case True
    with Cons.IH [OF dist rest] x show ?thesis by simp
  next
    case nd: False
    with Cons.prems(2) x have h: "case Get d key of Some dv \<Rightarrow> deepEqual rt w dv | None \<Rightarrow> validSet rt key w"
      by auto
    show ?thesis
    proof (cases "Get d key")
      case (Some dValue)
      with h Cons.IH [OF dist rest] nd x show ?thesis by simp
    next
      case None
      with h have s: "Set rt d key w = Inr (AList.update key w d)" by (simp add: Set_def)
      have "\<forall>(k, v) \<in> set xs. \<not> hasDollarPrefix k \<longrightarrow>
        (case Get (AList.update key w d) k of Some dv \<Rightarrow> deepEqual rt v dv | None \<Rightarrow> validSet rt k v)"
        using rest fresh by (force simp: Get_update)
      from Cons.IH [OF dist this] s None nd x show ?thesis by simp
    qed
  qed
qed

lemma filterUpsert_seed:
  assumes "visitsEachEntryOnce rt filterDoc" and "filterUpsert rt filterDoc = Inr (d, idFilter)"
  shows "idFilter = filterSuppliesId filterDoc"
    and "(''_id'' \<in> set (Keys d)) = filterSuppliesId filterDoc"
    and "Get d k = Some v \<Longrightarrow> (k, v) \<in> set filterDoc \<and> \<not> hasDollarPrefix k"
proof -
  from assms(2) have l: "filterUpsert_loop rt (mapRange rt filterDoc) [] False = Inr (d, idFilter)"
    by (simp add: filterUpsert_def)
  have eq: "filterSuppliesId (mapRange rt filterDoc) = filterSuppliesId filterDoc"
    using assms(1) by (simp add: filterSuppliesId_def list_ex_iff visitsEachEntryOnce_def)
  from filterUpsert_loop_id [OF l] eq
  show "idFilter = filterSuppliesId filterDoc"
    and "(''_id'' \<in> set (Keys d)) = filterSuppliesId filterDoc"
    by (simp_all add: Keys_def)
  assume g: "Get d k = Some v"
  from filterUpsert_loop_values [OF l g] assms(1) have "(k, v) \<in> set filterDoc"
    by (simp add: Get_def visitsEachEntryOnce_def)
  moreover from g have "k \<in> set (Keys d)"
    using Get_None_iff [of d k] by auto
  with filterUpsert_loop_id [OF l] have "\<not> hasDollarPrefix k" by (auto simp: Keys_def)
  ultimately show "(k, v) \<in> set filterDoc \<and> \<not> hasDollarPrefix k" by simp
qed

text \<open>
  The helper \<^verbatim>\<open>updateUpsert\<close> on its own. Let \<open>d\<close> be the seed document that
  \<^verbatim>\<open>filterUpsert\<close> extracted from the filter and let the update have a \<^verbatim>\<open>$set\<close>
  document. If some key is present in both with values that are not \<^verbatim>\<open>DeepEqual\<close>,
  the helper returns an error (built with \<^verbatim>\<open>lazyerrors.Errorf\<close>, so without a command
  error code). Whenever the helper succeeds, every key of the seed keeps the seed's value.
  If every key of the \<^verbatim>\<open>$set\<close> document that is in the seed has a \<^verbatim>\<open>DeepEqual\<close>
  value, and every other one is accepted by \<^verbatim>\<open>Set\<close>, then the helper succeeds (keys
  starting with \<^verbatim>\<open>$\<close> are skipped).
\<close>

lemma updateUpsert_conflict:
  assumes "visitsEachEntryOnce rt filterDoc" and "visitsEachEntryOnce rt setDoc"
    and seed: "filterUpsert rt filterDoc = Inr (d, idFilter)"
    and sd: "setDocument updateDoc = Some setDoc"
  shows "((\<exists>k v dv. (k, v) \<in> set setDoc \<and> Get d k = Some dv \<and> \<not> deepEqual rt v dv)
            \<longrightarrow> (\<exists>e. updateUpsert rt updateDoc idFilter d = Inl e \<and> errorCode e = None))
       \<and> (\<forall>d' idU. updateUpsert rt updateDoc idFilter d = Inr (d', idU)
            \<longrightarrow> (\<forall>k dv. Get d k = Some dv \<longrightarrow> Get d' k = Some dv))
       \<and> ((\<forall>(k, v) \<in> set setDoc. \<not> hasDollarPrefix k \<longrightarrow>
              (case Get d k of Some dv \<Rightarrow> deepEqual rt v dv | None \<Rightarrow> validSet rt k v))
            \<longrightarrow> (\<exists>d' idU. updateUpsert rt updateDoc idFilter d = Inr (d', idU)))"
proof -
  have u: "updateUpsert rt updateDoc idFilter d = updateUpsert_loop rt (mapRange rt setDoc) d False"
    using sd by (simp add: updateUpsert_def)
  from assms(2) have r: "set (mapRange rt setDoc) = set setDoc"
    and dist: "distinct (map fst (mapRange rt setDoc))"
    by (simp_all add: visitsEachEntryOnce_def Keys_def)
  show ?thesis
  proof (intro conjI impI allI)
    assume "\<exists>k v dv. (k, v) \<in> set setDoc \<and> Get d k = Some dv \<and> \<not> deepEqual rt v dv"
    then obtain k v dv where
      c: "(k, v) \<in> set setDoc" "Get d k = Some dv" "\<not> deepEqual rt v dv" by blast
    from c(1) r have m: "(k, v) \<in> set (mapRange rt setDoc)" by simp
    from filterUpsert_seed(3) [OF assms(1) seed c(2)] have nd: "\<not> hasDollarPrefix k" by simp
    from updateUpsert_loop_conflict [OF m nd c(2) c(3)] u
    show "\<exists>e. updateUpsert rt updateDoc idFilter d = Inl e \<and> errorCode e = None" by simp
  next
    fix d' idU k dv
    assume "updateUpsert rt updateDoc idFilter d = Inr (d', idU)" and "Get d k = Some dv"
    with u updateUpsert_loop_props [of rt "mapRange rt setDoc" d False d' idU]
    show "Get d' k = Some dv" by simp
  next
    assume "\<forall>(k, v) \<in> set setDoc. \<not> hasDollarPrefix k \<longrightarrow>
              (case Get d k of Some dv \<Rightarrow> deepEqual rt v dv | None \<Rightarrow> validSet rt k v)"
    with r have "\<forall>(k, v) \<in> set (mapRange rt setDoc). \<not> hasDollarPrefix k \<longrightarrow>
              (case Get d k of Some dv \<Rightarrow> deepEqual rt v dv | None \<Rightarrow> validSet rt k v)" by simp
    from updateUpsert_loop_proceeds [OF dist this] u
    show "\<exists>d' idU. updateUpsert rt updateDoc idFilter d = Inr (d', idU)" by simp
  qed
qed

lemma updateUpsert_result:
  assumes "\<forall>S. setDocument updateDoc = Some S \<longrightarrow> visitsEachEntryOnce rt S"
    and "updateUpsert rt updateDoc idFilter d = Inr (d', idU)"
  shows "idU = (setSuppliesId updateDoc \<and> ''_id'' \<notin> set (Keys d))"
    and "Get d k = Some dv \<Longrightarrow> Get d' k = Some dv"
    and "setSuppliesId updateDoc \<Longrightarrow> ''_id'' \<notin> set (Keys d) \<Longrightarrow>
           \<exists>v S. setDocument updateDoc = Some S \<and> (''_id'', v) \<in> set S \<and> Get d' ''_id'' = Some v"
proof -
  show "idU = (setSuppliesId updateDoc \<and> ''_id'' \<notin> set (Keys d))"
  proof (cases "setDocument updateDoc")
    case None
    with assms(2) show ?thesis by (simp add: updateUpsert_def setSuppliesId_def)
  next
    case (Some S)
    with assms(1) have r: "set (mapRange rt S) = set S" by (simp add: visitsEachEntryOnce_def)
    from Some assms(2) have l: "updateUpsert_loop rt (mapRange rt S) d False = Inr (d', idU)"
      by (simp add: updateUpsert_def)
    from updateUpsert_loop_props [OF l] r Some show ?thesis
      by (simp add: setSuppliesId_def Keys_def)
  qed
  show "Get d k = Some dv \<Longrightarrow> Get d' k = Some dv"
  proof (cases "setDocument updateDoc")
    case None
    assume "Get d k = Some dv"
    with None assms(2) show ?thesis by (simp add: updateUpsert_def)
  next
    case (Some S)
    assume g: "Get d k = Some dv"
    from Some assms(2) have l: "updateUpsert_loop rt (mapRange rt S) d False = Inr (d', idU)"
      by (simp add: updateUpsert_def)
    from updateUpsert_loop_props [OF l] g show ?thesis by blast
  qed
  assume sup: "setSuppliesId updateDoc" and nid: "''_id'' \<notin> set (Keys d)"
  from sup obtain S where S: "setDocument updateDoc = Some S" and k: "''_id'' \<in> set (Keys S)"
    by (auto simp: setSuppliesId_def split: option.splits)
  from S assms(1) have r: "set (mapRange rt S) = set S" by (simp add: visitsEachEntryOnce_def)
  from S assms(2) have l: "updateUpsert_loop rt (mapRange rt S) d False = Inr (d', idU)"
    by (simp add: updateUpsert_def)
  from k obtain v0 where "(''_id'', v0) \<in> set S" by (auto simp: Keys_def)
  with r have "(''_id'', v0) \<in> set (mapRange rt S)" by simp
  from updateUpsert_loop_added [OF l this not_dollar_id] have "Get d' ''_id'' \<noteq> None" .
  moreover from nid have "Get d ''_id'' = None" by (simp add: Get_None_iff)
  ultimately obtain v where "(''_id'', v) \<in> set (mapRange rt S)" "Get d' ''_id'' = Some v"
    using updateUpsert_loop_props [OF l] by blast
  with r S show "\<exists>v S. setDocument updateDoc = Some S \<and> (''_id'', v) \<in> set S \<and> Get d' ''_id'' = Some v"
    by auto
qed

lemma filterSuppliesId_mem:
  "filterSuppliesId filterDoc \<Longrightarrow> \<exists>v. (''_id'', v) \<in> set filterDoc"
  by (auto simp: filterSuppliesId_def list_ex_iff)

text \<open>
  The branch \<^verbatim>\<open>replace = false\<close> of \<^verbatim>\<open>Upsert\<close>. For every successful call of
  \<^verbatim>\<open>Upsert\<close> on filter F and update U: if F supplies \<^verbatim>\<open>_id\<close> (as a pair whose key
  does not start with \<^verbatim>\<open>$\<close> and whose value is neither a \<^verbatim>\<open>types.Document\<close> nor
  a \<^verbatim>\<open>types.Array\<close>) or the
  \<^verbatim>\<open>$set\<close> document of U has the key \<^verbatim>\<open>_id\<close>, no ObjectID is generated (the ObjectID
  state is unchanged) and the \<^verbatim>\<open>_id\<close> of a returned document is the supplied value;
  otherwise a new ObjectID is generated and set as the \<^verbatim>\<open>_id\<close> of the returned document.
\<close>

lemma Upsert_generates_id:
  assumes vf: "visitsEachEntryOnce rt filterDoc"
    and vs: "\<forall>S. setDocument updateDoc = Some S \<longrightarrow> visitsEachEntryOnce rt S"
    and ok: "Upsert rt unix st updateDoc filterDoc False = Inr (res, st')"
  shows "if filterSuppliesId filterDoc \<or> setSuppliesId updateDoc
         then st' = st
              \<and> (\<forall>d. res = Some d \<longrightarrow>
                    (\<exists>v. Get d ''_id'' = Some v
                       \<and> ((''_id'', v) \<in> set filterDoc
                            \<or> (\<exists>S. setDocument updateDoc = Some S \<and> (''_id'', v) \<in> set S))))
         else st' = snd (generateObjectID unix st)
              \<and> (\<exists>d. res = Some d
                    \<and> (validSet rt ''_id'' (VObjectID (fst (generateObjectID unix st)))
                         \<longrightarrow> Get d ''_id'' = Some (VObjectID (fst (generateObjectID unix st)))))"
proof -
  from ok obtain d idF where seed: "filterUpsert rt filterDoc = Inr (d, idF)"
    by (auto simp: Upsert_def split: sum.splits)
  note fs = filterUpsert_seed [OF vf seed]
  show ?thesis
  proof (cases "updateUpsert rt updateDoc idF d")
    case (Inl e)
    with ok seed have "idF" and "res = None" and "st' = st"
      by (auto simp: Upsert_def split: if_splits prod.splits)
    with fs(1) show ?thesis by simp
  next
    case (Inr r)
    then obtain d' idU where u: "updateUpsert rt updateDoc idF d = Inr (d', idU)" by (cases r) auto
    note ur = updateUpsert_result [OF vs u]
    have idU: "idU = (setSuppliesId updateDoc \<and> \<not> filterSuppliesId filterDoc)"
      using ur(1) fs(2) by simp
    show ?thesis
    proof (cases "filterSuppliesId filterDoc \<or> setSuppliesId updateDoc")
      case True
      with idU fs(1) have "idF \<or> idU" by auto
      with ok seed u have res: "res = Some d'" and st: "st' = st"
        by (auto simp: Upsert_def)
      have "\<exists>v. Get d' ''_id'' = Some v
               \<and> ((''_id'', v) \<in> set filterDoc
                    \<or> (\<exists>S. setDocument updateDoc = Some S \<and> (''_id'', v) \<in> set S))"
      proof (cases "filterSuppliesId filterDoc")
        case True
        with fs(2) obtain v where g: "Get d ''_id'' = Some v"
          using Get_None_iff [of d "''_id''"] by auto
        from fs(3) [OF g] ur(2) [OF g] show ?thesis by blast
      next
        case False
        with True fs(2) have "setSuppliesId updateDoc" "''_id'' \<notin> set (Keys d)" by simp_all
        from ur(3) [OF this] show ?thesis by blast
      qed
      with True res st show ?thesis by simp
    next
      case False
      with idU fs(1) have n: "\<not> idF" "\<not> idU" by auto
      obtain oid st1 where g: "generateObjectID unix st = (oid, st1)"
        by (cases "generateObjectID unix st")
      from ok seed u n g have st: "st' = st1"
        and res: "res = Some (case Set rt d' ''_id'' (VObjectID oid) of Inl err \<Rightarrow> d' | Inr d2 \<Rightarrow> d2)"
        by (auto simp: Upsert_def split: sum.splits)
      have "validSet rt ''_id'' (VObjectID oid) \<longrightarrow>
              Get (case Set rt d' ''_id'' (VObjectID oid) of Inl err \<Rightarrow> d' | Inr d2 \<Rightarrow> d2) ''_id''
                = Some (VObjectID oid)"
        by (simp add: Set_def Get_update)
      with False st res g show ?thesis by simp
    qed
  qed
qed

lemma gen0: "generateObjectID 0 st0 = ([0, 0, 0, 0, 1, 2, 3, 4, 5, 0, 0, 1], st0\<lparr>objectIDCounter := 1\<rparr>)"
  by (simp add: generateObjectID_def st0_def PutUint32_def)

text \<open>
  The branch \<^verbatim>\<open>replace = false\<close> on the filter \<^verbatim>\<open>{k: 5}\<close> and the update
  \<^verbatim>\<open>{$set: {v: "y"}}\<close>, where neither supplies \<^verbatim>\<open>_id\<close>.
\<close>

lemma Upsert_generates_id_example:
  "visitsEachEntryOnce rt0 [(''k'', VInt32 5)]
   \<and> Upsert rt0 0 st0 [(''$set'', VDocument [(''v'', VString ''y'')])] [(''k'', VInt32 5)] False
       = Inr (Some [(''k'', VInt32 5), (''v'', VString ''y''),
                    (''_id'', VObjectID [0, 0, 0, 0, 1, 2, 3, 4, 5, 0, 0, 1])],
              st0\<lparr>objectIDCounter := 1\<rparr>)
   \<and> \<not> (filterSuppliesId [(''k'', VInt32 5)]
          \<or> setSuppliesId [(''$set'', VDocument [(''v'', VString ''y'')])])
   \<and> st0\<lparr>objectIDCounter := 1\<rparr> = snd (generateObjectID 0 st0)"
proof -
  have vf: "visitsEachEntryOnce rt0 [(''k'', VInt32 5)]"
    by (simp add: visitsEachEntryOnce_def rt0_def Keys_def)
  have vs: "\<forall>S. setDocument [(''$set'', VDocument [(''v'', VString ''y'')])] = Some S
              \<longrightarrow> visitsEachEntryOnce rt0 S"
    by (simp add: setDocument_def visitsEachEntryOnce_def rt0_def Keys_def)
  have ok: "Upsert rt0 0 st0 [(''$set'', VDocument [(''v'', VString ''y'')])] [(''k'', VInt32 5)] False
       = Inr (Some [(''k'', VInt32 5), (''v'', VString ''y''),
                    (''_id'', VObjectID [0, 0, 0, 0, 1, 2, 3, 4, 5, 0, 0, 1])],
              st0\<lparr>objectIDCounter := 1\<rparr>)"
    by (simp add: Upsert_def filterUpsert_def updateUpsert_def setDocument_def gen0 Set_def rt0_def
        hasDollarPrefix_def isDocument_def isArray_def Get_def)
  have ns: "\<not> (filterSuppliesId [(''k'', VInt32 5)]
          \<or> setSuppliesId [(''$set'', VDocument [(''v'', VString ''y'')])])"
    by (simp add: filterSuppliesId_def setSuppliesId_def setDocument_def Keys_def)
  from Upsert_generates_id [OF vf vs ok] ns vf ok show ?thesis
    by simp
qed

text \<open>
  The helper on the filter \<^verbatim>\<open>{k: 5, j: "x"}\<close> and the update
  \<^verbatim>\<open>{$set: {j: "x", k: 6}}\<close>.
\<close>

lemma updateUpsert_conflict_example:
  "visitsEachEntryOnce rt0 [(''k'', VInt32 5), (''j'', VString ''x'')]
   \<and> visitsEachEntryOnce rt0 [(''j'', VString ''x''), (''k'', VInt32 6)]
   \<and> filterUpsert rt0 [(''k'', VInt32 5), (''j'', VString ''x'')]
       = Inr ([(''j'', VString ''x''), (''k'', VInt32 5)], False)
   \<and> setDocument [(''$set'', VDocument [(''j'', VString ''x''), (''k'', VInt32 6)])]
       = Some [(''j'', VString ''x''), (''k'', VInt32 6)]
   \<and> (\<exists>e. updateUpsert rt0 [(''$set'', VDocument [(''j'', VString ''x''), (''k'', VInt32 6)])] False
             [(''j'', VString ''x''), (''k'', VInt32 5)] = Inl e \<and> errorCode e = None)"
proof -
  have vf: "visitsEachEntryOnce rt0 [(''k'', VInt32 5), (''j'', VString ''x'')]"
    by (simp add: visitsEachEntryOnce_def rt0_def Keys_def) auto
  have vs: "visitsEachEntryOnce rt0 [(''j'', VString ''x''), (''k'', VInt32 6)]"
    by (simp add: visitsEachEntryOnce_def rt0_def Keys_def) auto
  have seed: "filterUpsert rt0 [(''k'', VInt32 5), (''j'', VString ''x'')]
       = Inr ([(''j'', VString ''x''), (''k'', VInt32 5)], False)"
    by (simp add: filterUpsert_def Set_def rt0_def hasDollarPrefix_def isDocument_def isArray_def)
  have sd: "setDocument [(''$set'', VDocument [(''j'', VString ''x''), (''k'', VInt32 6)])]
       = Some [(''j'', VString ''x''), (''k'', VInt32 6)]"
    by (simp add: setDocument_def)
  have c: "\<exists>k v dv. (k, v) \<in> set [(''j'', VString ''x''), (''k'', VInt32 6)]
             \<and> Get [(''j'', VString ''x''), (''k'', VInt32 5)] k = Some dv \<and> \<not> deepEqual rt0 v dv"
    by (intro exI [of _ "''k''"] exI [of _ "VInt32 6"] exI [of _ "VInt32 5"])
       (simp add: Get_def rt0_def)
  from updateUpsert_conflict [OF vf vs seed sd] c vf vs seed sd show ?thesis
    by blast
qed

text \<open>
  Claim C5 at \<^verbatim>\<open>replace = true\<close>, filter \<^verbatim>\<open>{_id: 7}\<close> and replacement document
  \<^verbatim>\<open>{_id: 7, a: 1}\<close>. The filter supplies \<^verbatim>\<open>_id\<close>, and the replacement carries the
  same \<^verbatim>\<open>_id\<close>, so by the claim no ObjectID is generated. The branch
  \<^verbatim>\<open>replace = true\<close> of \<^verbatim>\<open>Upsert\<close> sets neither \<^verbatim>\<open>idFilter\<close> nor \<^verbatim>\<open>idUpdate\<close>, so
  the guard \<^verbatim>\<open>!idFilter && !idUpdate\<close> holds: a new ObjectID is generated (the counter
  advances) and written over the supplied \<^verbatim>\<open>_id\<close>. On the same filter the branch
  \<^verbatim>\<open>replace = false\<close> keeps the supplied \<^verbatim>\<open>_id\<close> and generates nothing.
\<close>

theorem Upsert_replace_generates:
  "filterSuppliesId [(''_id'', VInt32 7)]
   \<and> Get [(''_id'', VInt32 7), (''a'', VInt32 1)] ''_id'' = Some (VInt32 7)
   \<and> Upsert rt0 0 st0 [(''_id'', VInt32 7), (''a'', VInt32 1)] [(''_id'', VInt32 7)] True
       = Inr (Some [(''_id'', VObjectID [0, 0, 0, 0, 1, 2, 3, 4, 5, 0, 0, 1]), (''a'', VInt32 1)],
              st0\<lparr>objectIDCounter := 1\<rparr>)
   \<and> Upsert rt0 0 st0 [(''$set'', VDocument [(''a'', VInt32 1)])] [(''_id'', VInt32 7)] False
       = Inr (Some [(''_id'', VInt32 7), (''a'', VInt32 1)], st0)"
  by (simp add: Upsert_def filterUpsert_def updateUpsert_def setDocument_def gen0 Set_def rt0_def
      hasDollarPrefix_def filterSuppliesId_def isScalarValue_def isDocument_def isArray_def Get_def)

text \<open>
  Claim C6 at \<^verbatim>\<open>replace = false\<close>, filter \<^verbatim>\<open>{k: 5}\<close> and update
  \<^verbatim>\<open>{$set: {k: 6}}\<close>. The seed extracted from the filter has \<^verbatim>\<open>k\<close> = 5, the
  \<^verbatim>\<open>$set\<close> document has \<^verbatim>\<open>k\<close> = 6, and \<^verbatim>\<open>updateUpsert\<close> returns its conflict
  error. \<^verbatim>\<open>Upsert\<close> does not fail with it: the error is assigned to \<^verbatim>\<open>err\<close> and never
  read, and \<^verbatim>\<open>doc\<close> is \<^verbatim>\<open>nil\<close>. No \<^verbatim>\<open>_id\<close> being supplied, an ObjectID is generated
  and \<^verbatim>\<open>doc.Set\<close> dereferences the \<^verbatim>\<open>nil\<close> pointer. With the filter
  \<^verbatim>\<open>{_id: 1, k: 5}\<close> the same conflict makes \<^verbatim>\<open>Upsert\<close> return the \<^verbatim>\<open>nil\<close>
  document and no error.
\<close>

theorem Upsert_conflict_error_dropped:
  "filterUpsert rt0 [(''k'', VInt32 5)] = Inr ([(''k'', VInt32 5)], False)
   \<and> updateUpsert rt0 [(''$set'', VDocument [(''k'', VInt32 6)])] False [(''k'', VInt32 5)]
       = Inl (Errorf ''Key-value pair %s:%s from query document is not equal to same key-value pair %s:%s in update document'')
   \<and> Upsert rt0 0 st0 [(''$set'', VDocument [(''k'', VInt32 6)])] [(''k'', VInt32 5)] False
       = Inl (Panic ''invalid memory address or nil pointer dereference'')
   \<and> Upsert rt0 0 st0 [(''$set'', VDocument [(''k'', VInt32 6)])]
         [(''_id'', VInt32 1), (''k'', VInt32 5)] False
       = Inr (None, st0)"
  by (simp add: Upsert_def filterUpsert_def updateUpsert_def setDocument_def Set_def rt0_def
      hasDollarPrefix_def isDocument_def isArray_def Get_def gen0)

text \<open>
  The error that \<^verbatim>\<open>Upsert\<close> drops carries no command error code.
\<close>

lemma updateUpsert_conflict_error_code:
  "errorCode (Errorf ''Key-value pair %s:%s from query document is not equal to same key-value pair %s:%s in update document'')
     = None"
  by simp

text \<open>
  Filter \<^verbatim>\<open>{k: 5}\<close> and update \<^verbatim>\<open>{$set: {k: 5}}\<close>: the values are equal, the upsert
  proceeds, and the document keeps the seed's value.
\<close>

lemma Upsert_equal_values_proceed:
  "Upsert rt0 0 st0 [(''$set'', VDocument [(''k'', VInt32 5)])] [(''k'', VInt32 5)] False
     = Inr (Some [(''k'', VInt32 5), (''_id'', VObjectID [0, 0, 0, 0, 1, 2, 3, 4, 5, 0, 0, 1])],
            st0\<lparr>objectIDCounter := 1\<rparr>)"
  by (simp add: Upsert_def filterUpsert_def updateUpsert_def setDocument_def Set_def rt0_def
      hasDollarPrefix_def isDocument_def isArray_def Get_def gen0)

section \<open>Properties of OP_QUERY decoding\<close>










end
